theory Spec2Isabelle
  imports Complex_Main "HOL-Library.Multiset" "HOL-Library.AList" "HOL-Library.Log_Nat"
begin

section \<open>Numbers\<close>

text \<open>
  A TypeScript \<open>number\<close> is modelled as an exact rational (\<^typ>\<open>rat\<close>): every finite
  double is a rational, and the operations are the exact ones, so the rounding of IEEE
  arithmetic and the values NaN and Infinity are outside the model. Array lengths are
  natural numbers. \<open>Math.round\<close> rounds to the nearest integer, a tie going up.
\<close>

definition Math_round :: "rat \<Rightarrow> rat" where
  "Math_round x = of_int \<lfloor>x + 1 / 2\<rfloor>"

text \<open>
  Where the rounding of the machine decides a result, the operations are those of
  IEEE 754 double precision, on the rationals that are doubles: \<open>toDouble x\<close> is the
  double nearest to \<open>x\<close>, a tie going to the even significand. The significand has 53
  bits, so for \<open>2 ^ k \<le> |x| < 2 ^ (k + 1)\<close> the doubles around \<open>x\<close> are the multiples of
  \<open>2 ^ (k - 52)\<close>, and of \<open>2 ^ (- 1074)\<close> in the subnormal range. A sum, product or
  quotient of two doubles is the exact one, rounded. Results from \<open>2 ^ 1024\<close> on, where
  the machine gives Infinity, are outside the model.
\<close>

definition pow2 :: "int \<Rightarrow> rat" where
  "pow2 e = (if 0 \<le> e then 2 ^ nat e else 1 / 2 ^ nat (- e))"

definition floorLog2 :: "rat \<Rightarrow> int" where
  "floorLog2 x =
     (if 1 \<le> x then int (floorlog 2 (nat \<lfloor>x\<rfloor>)) - 1
      else - int (floorlog 2 (nat (\<lceil>1 / x\<rceil> - 1))))"

definition roundHalfEven :: "rat \<Rightarrow> int" where
  "roundHalfEven q =
     (let f = \<lfloor>q\<rfloor>; r = q - of_int f
      in if r < 1 / 2 then f
         else if 1 / 2 < r then f + 1
         else if even f then f else f + 1)"

definition toDouble :: "rat \<Rightarrow> rat" where
  "toDouble x =
     (if x = 0 then 0
      else
        (let e = max (floorLog2 \<bar>x\<bar> - 52) (- 1074)
         in of_int (roundHalfEven (x / pow2 e)) * pow2 e))"

definition double_add :: "rat \<Rightarrow> rat \<Rightarrow> rat" where
  "double_add a b = toDouble (a + b)"

definition double_mul :: "rat \<Rightarrow> rat \<Rightarrow> rat" where
  "double_mul a b = toDouble (a * b)"

definition double_div :: "rat \<Rightarrow> rat \<Rightarrow> rat" where
  "double_div a b = toDouble (a / b)"

section \<open>Bus factor (analytics/busFactor.ts)\<close>

record Contributor =
  login :: string
  contributions :: rat
  avatar_url :: string

datatype Risk = LOW | MEDIUM | HIGH

record BusFactorResult =
  risk :: Risk
  topContributorRatio :: rat
  topContributor :: string
  totalContributors :: nat
  score :: rat

text \<open>
  \<open>contributors.reduce((sum, c) => sum + c.contributions, 0)\<close> is a left fold;
  \<open>contributors[0]\<close> is read only after the length test, so the list pattern is total.
\<close>

definition calculateBusFactor :: "Contributor list \<Rightarrow> BusFactorResult" where
  "calculateBusFactor contributors =
     (case contributors of
        [] \<Rightarrow> \<lparr>risk = LOW, topContributorRatio = 0, topContributor = '''',
               totalContributors = 0, score = 100\<rparr>
      | topC # _ \<Rightarrow>
          (let totalContributions = foldl (\<lambda>sum c. sum + contributions c) 0 contributors
           in if totalContributions = 0
              then \<lparr>risk = LOW, topContributorRatio = 0, topContributor = '''',
                     totalContributors = length contributors, score = 100\<rparr>
              else
                (let ratio = contributions topC / totalContributions;
                     r = (if ratio > 6 / 10 then HIGH
                          else if ratio > 4 / 10 then MEDIUM else LOW);
                     sc = max 0 (100 - ratio * 100)
                 in \<lparr>risk = r, topContributorRatio = ratio, topContributor = login topC,
                       totalContributors = length contributors, score = sc\<rparr>)))"

section \<open>Health score (analytics/healthScore.ts)\<close>

datatype IssueState = Open | Closed

record PullRequestRef =
  ref_merged_at :: "string option"

record Issue =
  issue_id :: rat
  issue_number :: rat
  issue_state :: IssueState
  issue_created_at :: string
  issue_closed_at :: "string option"
  pull_request :: "PullRequestRef option"

record PullRequest =
  pr_id :: rat
  pr_number :: rat
  pr_state :: IssueState
  merged :: bool
  created_at :: string
  closed_at :: "string option"
  merged_at :: "string option"

datatype Grade = EXCELLENT | GOOD | FAIR | POOR

record Breakdown =
  issueResolution :: rat
  prMergeRate :: rat
  prSpeed :: rat

record Metrics =
  totalIssues :: rat
  closedIssues :: rat
  totalPRs :: rat
  mergedPRs :: rat
  avgMergeTimeHours :: rat

record HealthScoreResult =
  score :: rat
  grade :: Grade
  breakdown :: Breakdown
  metrics :: Metrics

text \<open>
  A string or null in a condition is true when it is a non-empty string.
  \<open>new Date(s).getTime()\<close> belongs to the platform: the function \<open>getTime\<close> that
  reads a timestamp as milliseconds is a parameter; \<open>new Date(null).getTime()\<close> is 0.
\<close>

definition truthy :: "string option \<Rightarrow> bool" where
  "truthy v = (case v of None \<Rightarrow> False | Some t \<Rightarrow> t \<noteq> [])"

definition Date_getTime :: "(string \<Rightarrow> rat) \<Rightarrow> string option \<Rightarrow> rat" where
  "Date_getTime getTime v = (case v of None \<Rightarrow> 0 | Some t \<Rightarrow> getTime t)"

definition gradeOf :: "rat \<Rightarrow> Grade" where
  "gradeOf sc =
     (if sc \<ge> 80 then EXCELLENT
      else if sc \<ge> 60 then GOOD
      else if sc \<ge> 40 then FAIR
      else POOR)"

definition calculateHealthScore ::
  "(string \<Rightarrow> rat) \<Rightarrow> Issue list \<Rightarrow> PullRequest list \<Rightarrow> HealthScoreResult" where
  "calculateHealthScore getTime issues pullRequests =
     (let realIssues = filter (\<lambda>issue. pull_request issue = None) issues;
          prs = pullRequests;
          nIssues = length realIssues;
          nClosed = length (filter (\<lambda>i. issue_state i = Closed) realIssues);
          nPRs = length prs;
          nMerged = length (filter (\<lambda>pr. merged pr) prs);
          mergedPRsWithTime =
            filter (\<lambda>pr. merged pr \<and> truthy (merged_at pr) \<and> created_at pr \<noteq> []) prs;
          avgHours =
            (if length mergedPRsWithTime > 0
             then
               (let totalMergeTime =
                      foldl (\<lambda>sum pr.
                               sum + (Date_getTime getTime (merged_at pr)
                                       - getTime (created_at pr)))
                            0 mergedPRsWithTime
                in totalMergeTime / of_nat (length mergedPRsWithTime) / (1000 * 60 * 60))
             else 0);
          issueRes = (if nIssues > 0 then (of_nat nClosed / of_nat nIssues) * 40 else 40);
          mergeRate = (if nPRs > 0 then (of_nat nMerged / of_nat nPRs) * 40 else 40);
          speed = (if avgHours > 0 \<and> avgHours < 48 then 20 else 0);
          sc = Math_round (issueRes + mergeRate + speed)
      in \<lparr>score = sc,
          grade = gradeOf sc,
          breakdown = \<lparr>issueResolution = Math_round issueRes,
                        prMergeRate = Math_round mergeRate,
                        prSpeed = speed\<rparr>,
          metrics = \<lparr>totalIssues = of_nat nIssues,
                      closedIssues = of_nat nClosed,
                      totalPRs = of_nat nPRs,
                      mergedPRs = of_nat nMerged,
                      avgMergeTimeHours = Math_round (avgHours * 10) / 10\<rparr>\<rparr>)"

text \<open>
  In the average, the merge time is a sum of one-decimal values divided and rounded
  to one decimal again, and the rounding of the doubles can move the result by a
  whole tenth: that field is computed in double arithmetic. \<open>Math.round\<close> of a
  double is exact.
\<close>

definition calculateAverageHealthScore :: "HealthScoreResult list \<Rightarrow> HealthScoreResult" where
  "calculateAverageHealthScore healthScores =
     (if length healthScores = 0
      then \<lparr>score = 0, grade = POOR,
             breakdown = \<lparr>issueResolution = 0, prMergeRate = 0, prSpeed = 0\<rparr>,
             metrics = \<lparr>totalIssues = 0, closedIssues = 0, totalPRs = 0, mergedPRs = 0,
                         avgMergeTimeHours = 0\<rparr>\<rparr>
      else
        (let n = of_nat (length healthScores);
             avgScore = foldl (\<lambda>sum hs. sum + score hs) 0 healthScores / n;
             avgBreakdown =
               \<lparr>issueResolution =
                    foldl (\<lambda>sum hs. sum + issueResolution (breakdown hs)) 0 healthScores / n,
                 prMergeRate =
                    foldl (\<lambda>sum hs. sum + prMergeRate (breakdown hs)) 0 healthScores / n,
                 prSpeed =
                    foldl (\<lambda>sum hs. sum + prSpeed (breakdown hs)) 0 healthScores / n\<rparr>;
             totalMetrics =
               foldl (\<lambda>acc hs.
                        \<lparr>totalIssues = totalIssues acc + totalIssues (metrics hs),
                          closedIssues = closedIssues acc + closedIssues (metrics hs),
                          totalPRs = totalPRs acc + totalPRs (metrics hs),
                          mergedPRs = mergedPRs acc + mergedPRs (metrics hs),
                          avgMergeTimeHours =
                            double_add (avgMergeTimeHours acc)
                              (avgMergeTimeHours (metrics hs))\<rparr>)
                     \<lparr>totalIssues = 0, closedIssues = 0, totalPRs = 0, mergedPRs = 0,
                       avgMergeTimeHours = 0\<rparr>
                     healthScores
         in \<lparr>score = Math_round avgScore,
             grade = gradeOf avgScore,
             breakdown = \<lparr>issueResolution = Math_round (issueResolution avgBreakdown),
                           prMergeRate = Math_round (prMergeRate avgBreakdown),
                           prSpeed = Math_round (prSpeed avgBreakdown)\<rparr>,
             metrics = \<lparr>totalIssues = totalIssues totalMetrics,
                         closedIssues = closedIssues totalMetrics,
                         totalPRs = totalPRs totalMetrics,
                         mergedPRs = mergedPRs totalMetrics,
                         avgMergeTimeHours =
                           double_div
                             (Math_round
                                (double_mul (double_div (avgMergeTimeHours totalMetrics) n) 10))
                             10\<rparr>\<rparr>))"

section \<open>Fetch client (api/github.ts)\<close>

text \<open>
  A response carries its status, the two rate-limit headers (\<open>headers.get\<close> gives a
  string or null) and the decoded JSON body. \<open>response.ok\<close> holds for the statuses
  200 to 299.
\<close>

record 'b Response =
  status :: nat
  X_RateLimit_Remaining :: "string option"
  X_RateLimit_Reset :: "string option"
  body :: 'b

definition ok :: "('b, 'z) Response_scheme \<Rightarrow> bool" where
  "ok response = (200 \<le> status response \<and> status response \<le> 299)"

text \<open>
  \<open>parseInt(s)\<close> with no radix: leading (ASCII) white space is skipped, a sign is read, the
  prefix \<open>0x\<close> selects radix 16, and the longest run of digits is the value; with no
  digit the result is NaN, here \<open>None\<close>.
\<close>

definition isWhiteSpace :: "char \<Rightarrow> bool" where
  "isWhiteSpace c = ((of_char c :: nat) \<in> {9, 10, 11, 12, 13, 32})"

definition digitValue :: "char \<Rightarrow> nat option" where
  "digitValue c =
     (let n = (of_char c :: nat)
      in if 48 \<le> n \<and> n \<le> 57 then Some (n - 48)
         else if 97 \<le> n \<and> n \<le> 122 then Some (n - 87)
         else if 65 \<le> n \<and> n \<le> 90 then Some (n - 55)
         else None)"

definition isDigit :: "nat \<Rightarrow> char \<Rightarrow> bool" where
  "isDigit radix c = (case digitValue c of None \<Rightarrow> False | Some d \<Rightarrow> d < radix)"

definition digitsValue :: "nat \<Rightarrow> string \<Rightarrow> nat" where
  "digitsValue radix ds =
     foldl (\<lambda>n c. n * radix + (case digitValue c of None \<Rightarrow> 0 | Some d \<Rightarrow> d)) 0 ds"

definition parseInt :: "string \<Rightarrow> int option" where
  "parseInt s =
     (let t = dropWhile isWhiteSpace s;
          neg = (take 1 t = ''-'');
          u = (if take 1 t = ''-'' \<or> take 1 t = ''+'' then drop 1 t else t);
          hex = (take 2 u = ''0x'' \<or> take 2 u = ''0X'');
          radix = (if hex then 16 else 10);
          v = (if hex then drop 2 u else u);
          ds = takeWhile (isDigit radix) v
      in if ds = [] then None
         else Some ((if neg then - 1 else 1) * int (digitsValue radix ds)))"

text \<open>
  The world outside: \<open>server env url n\<close> is the response to the request number \<open>n\<close> of
  the run (counted from 0) when that request asks for \<open>url\<close>, and \<open>date_now env n\<close> is
  what \<open>Date.now()\<close> reads while that response is handled. The state of a run is the
  log of the URLs requested and the log of the timer delays awaited, both in order. A
  \<open>fetch\<close> that is rejected without a response is outside the model.
\<close>

record ('u, 'b) Env =
  server :: "'u \<Rightarrow> nat \<Rightarrow> 'b Response"
  date_now :: "nat \<Rightarrow> int"

record 'u Run =
  fetched :: "'u list"
  slept :: "int list"

text \<open>
  The two errors thrown: \<open>Error("Resource not found")\<close>, and
  \<open>Error(`Failed to fetch ${url} after ${retries} retries`)\<close>.
\<close>

datatype 'u FetchError = NotFound | ExhaustedRetries 'u nat

definition handleRateLimit :: "int \<Rightarrow> 'b Response \<Rightarrow> 'u Run \<Rightarrow> 'u Run" where
  "handleRateLimit now response run =
     (let remaining = X_RateLimit_Remaining response;
          resetTime = X_RateLimit_Reset response
      in if remaining = Some ''0'' \<and> truthy resetTime
         then
           (case parseInt (case resetTime of None \<Rightarrow> [] | Some t \<Rightarrow> t) of
              None \<Rightarrow> run
            | Some reset \<Rightarrow>
                (let waitTime = reset * 1000 - now
                 in if waitTime > 0 then run\<lparr>slept := slept run @ [waitTime]\<rparr> else run))
         else run)"

text \<open>
  The loop \<open>for (let i = 0; i < retries; i++)\<close>: \<open>continue\<close> goes to \<open>i++\<close>, as the
  end of the body does.
\<close>

function fetchLoop ::
  "('u, 'b) Env \<Rightarrow> 'u \<Rightarrow> nat \<Rightarrow> nat \<Rightarrow> 'u Run \<Rightarrow> ('u FetchError + 'b Response) \<times> 'u Run" where
  "fetchLoop env url retries i run =
     (if i < retries
      then
        (let n = length (fetched run);
             response = server env url n;
             run1 = run\<lparr>fetched := fetched run @ [url]\<rparr>
         in if status response = 403
            then fetchLoop env url retries (i + 1)
                   (handleRateLimit (date_now env n) response run1)
            else if ok response then (Inr response, run1)
            else if status response = 404 then (Inl NotFound, run1)
            else fetchLoop env url retries (i + 1)
                   (if int i < int retries - 1
                    then run1\<lparr>slept := slept run1 @ [1000 * (int i + 1)]\<rparr>
                    else run1))
      else (Inl (ExhaustedRetries url retries), run))"
  by pat_completeness auto
termination
  by (relation "measure (\<lambda>(env, url, retries, i, run). retries - i)") auto

definition fetchWithRetry ::
  "('u, 'b) Env \<Rightarrow> 'u \<Rightarrow> nat \<Rightarrow> 'u Run \<Rightarrow> ('u FetchError + 'b Response) \<times> 'u Run" where
  "fetchWithRetry env url retries run = fetchLoop env url retries 0 run"

section \<open>Pagination (api/github.ts, fetchUserRepos)\<close>

definition GITHUB_API_BASE :: string where
  "GITHUB_API_BASE = ''https://api.github.com''"

fun showNat :: "nat \<Rightarrow> string" where
  "showNat n =
     (if n < 10 then [char_of (48 + n)]
      else showNat (n div 10) @ [char_of (48 + n mod 10)])"

definition userReposUrl :: "string \<Rightarrow> nat \<Rightarrow> nat \<Rightarrow> string" where
  "userReposUrl username page perPage =
     GITHUB_API_BASE @ ''/users/'' @ username @ ''/repos?page='' @ showNat page
       @ ''&per_page='' @ showNat perPage @ ''&sort=updated''"

text \<open>
  The loop \<open>while (true)\<close> has no bound of its own: a server whose pages are all full
  keeps it running, and then the function has no value (\<open>None\<close>). An error thrown by
  \<open>fetchWithRetry\<close> leaves the function at once.
\<close>

partial_function (option) fetchUserReposLoop ::
  "(string, 'r list) Env \<Rightarrow> string \<Rightarrow> nat \<Rightarrow> 'r list \<Rightarrow> string Run
     \<Rightarrow> ((string FetchError + 'r list) \<times> string Run) option" where
  "fetchUserReposLoop env username page repos run =
     (let perPage = 100;
          r = fetchWithRetry env (userReposUrl username page perPage) 3 run
      in case fst r of
           Inl e \<Rightarrow> Some (Inl e, snd r)
         | Inr response \<Rightarrow>
             (let data = body response
              in if length data = 0 then Some (Inr repos, snd r)
                 else if length data < perPage then Some (Inr (repos @ data), snd r)
                 else fetchUserReposLoop env username (page + 1) (repos @ data) (snd r)))"

definition fetchUserRepos ::
  "(string, 'r list) Env \<Rightarrow> string \<Rightarrow> string Run
     \<Rightarrow> ((string FetchError + 'r list) \<times> string Run) option" where
  "fetchUserRepos env username run = fetchUserReposLoop env username 1 [] run"

section \<open>Commit statistics (aggregateCommitActivity, calculateActivityScore)\<close>

record CommitActivity =
  week :: rat
  total :: rat
  days :: "rat list"

record RepoCommitData =
  repoName :: string
  activities :: "CommitActivity list"

record RepoCommits =
  repoName :: string
  commits :: rat

record CommitTimelineData =
  week :: rat
  totalCommits :: rat
  repoCount :: nat
  repos :: "RepoCommits list"

text \<open>
  The \<open>Map\<close> keeps its keys in the order of their first insertion: an association
  list, where \<open>set\<close> on a key already there replaces the value in place
  (\<^const>\<open>AList.update\<close>). The objects stored are shared with the map, so the writes to
  \<open>weekData\<close> are writes to the map's entry.
\<close>

type_synonym WeekMap = "(rat \<times> CommitTimelineData) list"

definition addActivity :: "string \<Rightarrow> CommitActivity \<Rightarrow> WeekMap \<Rightarrow> WeekMap" where
  "addActivity name activity weekMap =
     (let wk = CommitActivity.week activity * 1000;
          weekMap1 =
            (if map_of weekMap wk = None
             then AList.update wk
                    \<lparr>week = wk, totalCommits = 0, repoCount = 0, repos = []\<rparr> weekMap
             else weekMap)
      in case map_of weekMap1 wk of
           None \<Rightarrow> weekMap1
         | Some weekData \<Rightarrow>
             (let weekData1 = weekData\<lparr>totalCommits := totalCommits weekData + total activity\<rparr>;
                  weekData2 = weekData1\<lparr>repos := repos weekData1
                                @ [\<lparr>repoName = name, commits = total activity\<rparr>]\<rparr>;
                  weekData3 = weekData2\<lparr>repoCount := length (repos weekData2)\<rparr>
              in AList.update wk weekData3 weekMap1))"

text \<open>
  \<open>Array.prototype.sort\<close> is stable, and with the comparator \<open>a.week - b.week\<close> it
  orders by the week, ascending: \<^const>\<open>sort_key\<close>.
\<close>

definition aggregateCommitActivity :: "RepoCommitData list \<Rightarrow> CommitTimelineData list" where
  "aggregateCommitActivity repoCommitData =
     (let weekMap =
            foldl (\<lambda>m r. foldl (\<lambda>m' activity. addActivity (RepoCommitData.repoName r) activity m')
                            m (activities r))
                  [] repoCommitData
      in sort_key CommitTimelineData.week (map snd weekMap))"

text \<open>
  \<open>xs.slice(start)\<close>: a negative start counts from the end, and the start is clipped
  to the array.
\<close>

definition slice :: "int \<Rightarrow> 'a list \<Rightarrow> 'a list" where
  "slice start xs =
     (let len = int (length xs);
          k = (if start < 0 then max (len + start) 0 else min start len)
      in drop (nat k) xs)"

text \<open>
  \<open>Math.log10\<close> is the real logarithm, so the score is computed in the reals and
  \<open>Math.round\<close> is \<^const>\<open>round\<close> there.
\<close>

definition calculateActivityScore :: "CommitActivity list \<Rightarrow> int \<Rightarrow> int" where
  "calculateActivityScore acts weeksToConsider =
     (if length acts = 0 then 0
      else
        (let recentActivities = filter (\<lambda>a. total a > 0) (slice (- weeksToConsider) acts)
         in if length recentActivities = 0 then 0
            else
              (let totalCommits = foldl (\<lambda>sum a. sum + total a) 0 recentActivities;
                   avgCommitsPerWeek = totalCommits / of_nat (length recentActivities);
                   sc = min 100 (log 10 (real_of_rat avgCommitsPerWeek + 1) * 20)
               in round sc)))"

section \<open>Stress score (components/stress-analyzer.tsx)\<close>

record CommitData =
  sha :: string
  message :: string
  date :: string
  filesCount :: rat
  additions :: rat
  deletions :: rat
  hour :: rat
  stressScore :: rat
  repo :: string
  url :: string

definition STRESS_KEYWORDS :: "string list" where
  "STRESS_KEYWORDS =
     [''fix'', ''hotfix'', ''urgent'', ''asap'', ''quick'', ''temp'', ''hack'',
      ''workaround'', ''emergency'', ''critical'', ''broken'', ''crash'',
      ''panic'', ''desperate'', ''rushed'', ''last minute'']"

text \<open>
  Strings are lists of bytes here: \<open>toLowerCase\<close> maps the letters A to Z and leaves
  every other byte, and \<open>s.includes(k)\<close> holds when \<open>k\<close> occurs in \<open>s\<close> as a block.
\<close>

definition lowerChar :: "char \<Rightarrow> char" where
  "lowerChar c =
     (let n = (of_char c :: nat) in if 65 \<le> n \<and> n \<le> 90 then char_of (n + 32) else c)"

definition toLowerCase :: "string \<Rightarrow> string" where
  "toLowerCase s = map lowerChar s"

fun startsWith :: "string \<Rightarrow> string \<Rightarrow> bool" where
  "startsWith s [] = True"
| "startsWith [] (k # ks) = False"
| "startsWith (c # cs) (k # ks) = (c = k \<and> startsWith cs ks)"

fun includesStr :: "string \<Rightarrow> string \<Rightarrow> bool" where
  "includesStr [] k = (k = [])"
| "includesStr (c # cs) k = (startsWith (c # cs) k \<or> includesStr cs k)"

definition stressOf :: "rat \<Rightarrow> CommitData \<Rightarrow> rat" where
  "stressOf avgFiles commit =
     (let msg = toLowerCase (message commit);
          hasMessageStress = list_ex (\<lambda>keyword. includesStr msg keyword) STRESS_KEYWORDS;
          s1 = (if hasMessageStress then 0 + 4 / 10 else 0);
          s2 = (if filesCount commit > avgFiles * 2 then s1 + 35 / 100 else s1);
          isNightTime = (hour commit \<ge> 22 \<or> hour commit < 5);
          s3 = (if isNightTime \<and> filesCount commit > avgFiles then s2 + 25 / 100 else s2)
      in min s3 1)"

definition calculateStressScore :: "CommitData list \<Rightarrow> CommitData list" where
  "calculateStressScore cs =
     (if length cs = 0 then cs
      else
        (let avgFiles = foldl (\<lambda>sum c. sum + filesCount c) 0 cs / of_nat (length cs)
         in map (\<lambda>commit. commit\<lparr>stressScore := stressOf avgFiles commit\<rparr>) cs))"

section \<open>Derived notions and scenarios\<close>









text \<open>
  A mock endpoint for the repository list of \<open>username\<close>: page \<open>p\<close> (from 1) has
  \<open>sizes ! (p - 1)\<close> records, every request succeeds at once, and a record is the
  number of the page it came from. A page beyond the list is empty.
\<close>

definition pageOf :: "string \<Rightarrow> nat list \<Rightarrow> string \<Rightarrow> nat list" where
  "pageOf username sizes u =
     (case find (\<lambda>p. u = userReposUrl username p 100) [1..<Suc (length sizes)] of
        None \<Rightarrow> []
      | Some p \<Rightarrow> replicate (sizes ! (p - 1)) p)"

definition pagedServer :: "string \<Rightarrow> nat list \<Rightarrow> (string, nat list) Env" where
  "pagedServer username sizes =
     \<lparr>server = (\<lambda>u n.
         \<lparr>status = 200, X_RateLimit_Remaining = Some ''59'',
           X_RateLimit_Reset = Some ''1700003600'', body = pageOf username sizes u\<rparr>),
       date_now = (\<lambda>n. 1700000000000)\<rparr>"

text \<open>
  A weekly series with the given commit totals, oldest week first, the weeks one
  week (604800 seconds) apart.
\<close>

definition weeksOf :: "rat list \<Rightarrow> CommitActivity list" where
  "weeksOf totals =
     map (\<lambda>(i, t). \<lparr>CommitActivity.week = 1704067200 + 604800 * of_nat i, total = t,
                       days = [t, 0, 0, 0, 0, 0, 0]\<rparr>)
         (enumerate 0 totals)"

section \<open>The timeline as the specification words it\<close>

text \<open>
  The specification of the aggregator, written from its words and not from the code:
  all weekly entries of all repositories, each with the name of its repository; the
  week key of an entry, its week timestamp in milliseconds; for one week key, the
  entry that sums the totals of the entries with this key and records their
  repositories; and the timeline, one such entry per week key, ascending by week.
\<close>

definition weekEntries :: "RepoCommitData list \<Rightarrow> (string \<times> CommitActivity) list" where
  "weekEntries repoCommitData =
     concat (map (\<lambda>r. map (Pair (RepoCommitData.repoName r)) (activities r)) repoCommitData)"

definition weekKey :: "string \<times> CommitActivity \<Rightarrow> rat" where
  "weekKey e = CommitActivity.week (snd e) * 1000"

definition timelineEntry :: "(string \<times> CommitActivity) list \<Rightarrow> rat \<Rightarrow> CommitTimelineData" where
  "timelineEntry es w =
     \<lparr>week = w,
       totalCommits = sum_list (map (\<lambda>e. total (snd e)) (filter (\<lambda>e. weekKey e = w) es)),
       repoCount = length (filter (\<lambda>e. weekKey e = w) es),
       repos = map (\<lambda>e. \<lparr>repoName = fst e, commits = total (snd e)\<rparr>)
                   (filter (\<lambda>e. weekKey e = w) es)\<rparr>"

definition timelineSpec :: "RepoCommitData list \<Rightarrow> CommitTimelineData list" where
  "timelineSpec repoCommitData =
     map (timelineEntry (weekEntries repoCommitData))
         (sort (remdups (map weekKey (weekEntries repoCommitData))))"

text \<open>
  The invariant of the week map while the entries \<open>es\<close> have been added: its keys
  are distinct, they are the week keys of \<open>es\<close>, and each holds the entry of its week.
\<close>

definition weekMapInv :: "(string \<times> CommitActivity) list \<Rightarrow> WeekMap \<Rightarrow> bool" where
  "weekMapInv es m =
     (distinct (map fst m) \<and>
      map_of m = (\<lambda>k. if k \<in> weekKey ` set es then Some (timelineEntry es k) else None))"

section \<open>Facts about the bus factor\<close>

lemma foldl_add_sum_list:
  "foldl (\<lambda>s c. s + f c) a xs = a + sum_list (map f xs)"
  for a :: rat
  by (induction xs arbitrary: a) (simp_all add: add.assoc)

lemma busFactor_ratio_eq:
  assumes "sum_list (map contributions cs) \<noteq> 0"
  shows "cs \<noteq> [] \<and> topContributorRatio (calculateBusFactor cs) =
           contributions (hd cs) / sum_list (map contributions cs)"
proof (cases cs)
  case Nil
  with assms show ?thesis by simp
next
  case (Cons c rest)
  with assms show ?thesis
    by (simp add: calculateBusFactor_def foldl_add_sum_list Let_def)
qed

text \<open>
  Claim C2, as amended. For every contributor list with a positive total contribution
  count, \<open>topContributorRatio\<close> is the contribution count of the first element divided
  by the sum of all counts; the function does not sort. When the list is ordered by
  contribution count, descending (the order the contributors endpoint returns), that
  is the largest count divided by the sum.
\<close>

theorem busFactor_ratio_first_element:
  assumes "0 < sum_list (map contributions cs)"
  shows "cs \<noteq> [] \<and>
     topContributorRatio (calculateBusFactor cs) =
       contributions (hd cs) / sum_list (map contributions cs) \<and>
     (sorted_wrt (\<ge>) (map contributions cs) \<longrightarrow>
        topContributorRatio (calculateBusFactor cs) =
          Max (set (map contributions cs)) / sum_list (map contributions cs))"
proof -
  from assms have nz: "sum_list (map contributions cs) \<noteq> 0" by simp
  note first = busFactor_ratio_eq [OF nz]
  have "contributions (hd cs) = Max (set (map contributions cs))"
    if "sorted_wrt (\<ge>) (map contributions cs)"
  proof -
    from first obtain c rest where cs: "cs = c # rest" by (cases cs) auto
    from that cs have "\<forall>y \<in> set (map contributions rest). y \<le> contributions c" by auto
    then have "Max (insert (contributions c) (set (map contributions rest))) = contributions c"
      by (intro Max_eqI) auto
    with cs show ?thesis by simp
  qed
  with first show ?thesis by simp
qed

theorem busFactor_ratio_first_element_witness:
  "0 < sum_list (map contributions
       [\<lparr>login = ''alice'', contributions = 70, avatar_url = ''''\<rparr>,
        \<lparr>login = ''bob'', contributions = 30, avatar_url = ''''\<rparr>]) \<and>
   sorted_wrt (\<ge>) (map contributions
       [\<lparr>login = ''alice'', contributions = 70, avatar_url = ''''\<rparr>,
        \<lparr>login = ''bob'', contributions = 30, avatar_url = ''''\<rparr>]) \<and>
   topContributorRatio (calculateBusFactor
       [\<lparr>login = ''alice'', contributions = 70, avatar_url = ''''\<rparr>,
        \<lparr>login = ''bob'', contributions = 30, avatar_url = ''''\<rparr>]) = 7 / 10"
  using busFactor_ratio_first_element
    [of "[\<lparr>login = ''alice'', contributions = 70, avatar_url = ''''\<rparr>,
          \<lparr>login = ''bob'', contributions = 30, avatar_url = ''''\<rparr>]"]
  by simp

text \<open>
  Claim C2 as stated fails: the two orders of the same two contributors give the
  ratios 3/10 and 7/10, and only the second is the largest count over the sum.
\<close>

theorem busFactor_permutation_counterexample:
  "mset [\<lparr>login = ''bob'', contributions = 30, avatar_url = ''''\<rparr>,
         \<lparr>login = ''alice'', contributions = 70, avatar_url = ''''\<rparr>] =
   mset [\<lparr>login = ''alice'', contributions = 70, avatar_url = ''''\<rparr>,
         \<lparr>login = ''bob'', contributions = 30, avatar_url = ''''\<rparr>] \<and>
   topContributorRatio (calculateBusFactor
       [\<lparr>login = ''bob'', contributions = 30, avatar_url = ''''\<rparr>,
        \<lparr>login = ''alice'', contributions = 70, avatar_url = ''''\<rparr>]) = 3 / 10 \<and>
   topContributorRatio (calculateBusFactor
       [\<lparr>login = ''alice'', contributions = 70, avatar_url = ''''\<rparr>,
        \<lparr>login = ''bob'', contributions = 30, avatar_url = ''''\<rparr>]) = 7 / 10 \<and>
   Max (set (map contributions
       [\<lparr>login = ''bob'', contributions = 30, avatar_url = ''''\<rparr>,
        \<lparr>login = ''alice'', contributions = 70, avatar_url = ''''\<rparr>])) /
     sum_list (map contributions
       [\<lparr>login = ''bob'', contributions = 30, avatar_url = ''''\<rparr>,
        \<lparr>login = ''alice'', contributions = 70, avatar_url = ''''\<rparr>]) = 7 / 10 \<and>
   topContributorRatio (calculateBusFactor
       [\<lparr>login = ''bob'', contributions = 30, avatar_url = ''''\<rparr>,
        \<lparr>login = ''alice'', contributions = 70, avatar_url = ''''\<rparr>]) \<noteq>
   topContributorRatio (calculateBusFactor
       [\<lparr>login = ''alice'', contributions = 70, avatar_url = ''''\<rparr>,
        \<lparr>login = ''bob'', contributions = 30, avatar_url = ''''\<rparr>])"
  by (simp add: calculateBusFactor_def add.commute)

text \<open>
  Claim C4, as amended. For every contributor list whose contribution counts are all
  non-negative, the ratio lies between 0 and 1, the score between 0 and 100, and the
  score is 100 minus 100 times the ratio.
\<close>

theorem busFactor_bounds_nonneg:
  assumes "\<forall>c \<in> set cs. 0 \<le> contributions c"
  shows "0 \<le> topContributorRatio (calculateBusFactor cs) \<and>
         topContributorRatio (calculateBusFactor cs) \<le> 1 \<and>
         0 \<le> BusFactorResult.score (calculateBusFactor cs) \<and>
         BusFactorResult.score (calculateBusFactor cs) \<le> 100 \<and>
         BusFactorResult.score (calculateBusFactor cs) =
           100 - topContributorRatio (calculateBusFactor cs) * 100"
proof (cases cs)
  case Nil
  then show ?thesis by (simp add: calculateBusFactor_def)
next
  case (Cons c rest)
  let ?t = "sum_list (map contributions cs)"
  from assms Cons have c0: "0 \<le> contributions c" by simp
  from assms Cons have "0 \<le> sum_list (map contributions rest)"
    by (intro sum_list_nonneg) auto
  with Cons have le: "contributions c \<le> ?t" by simp
  show ?thesis
  proof (cases "?t = 0")
    case True
    with Cons show ?thesis
      by (simp add: calculateBusFactor_def foldl_add_sum_list)
  next
    case False
    with c0 le have pos: "0 < ?t" by simp
    have r: "topContributorRatio (calculateBusFactor cs) = contributions c / ?t"
      using busFactor_ratio_eq [OF False] Cons by simp
    have s: "BusFactorResult.score (calculateBusFactor cs) =
               max 0 (100 - contributions c / ?t * 100)"
      using False Cons by (simp add: calculateBusFactor_def foldl_add_sum_list Let_def)
    have r0: "0 \<le> contributions c / ?t" using c0 pos by simp
    have r1: "contributions c / ?t \<le> 1" using le pos by simp
    have "0 \<le> q \<and> q \<le> 1 \<and> 0 \<le> max 0 (100 - q * 100) \<and> max 0 (100 - q * 100) \<le> 100 \<and>
        max 0 (100 - q * 100) = 100 - q * 100" if "0 \<le> q" "q \<le> 1" for q :: rat
      using that by (simp add: max_def)
    from this [OF r0 r1] show ?thesis unfolding r s .
  qed
qed

theorem busFactor_bounds_nonneg_witness:
  "list_all (\<lambda>c. 0 \<le> contributions c)
       [\<lparr>login = ''alice'', contributions = 70, avatar_url = ''''\<rparr>,
        \<lparr>login = ''bob'', contributions = 30, avatar_url = ''''\<rparr>] \<and>
   topContributorRatio (calculateBusFactor
       [\<lparr>login = ''alice'', contributions = 70, avatar_url = ''''\<rparr>,
        \<lparr>login = ''bob'', contributions = 30, avatar_url = ''''\<rparr>]) = 7 / 10 \<and>
   BusFactorResult.score (calculateBusFactor
       [\<lparr>login = ''alice'', contributions = 70, avatar_url = ''''\<rparr>,
        \<lparr>login = ''bob'', contributions = 30, avatar_url = ''''\<rparr>]) = 30"
  using busFactor_bounds_nonneg
    [of "[\<lparr>login = ''alice'', contributions = 70, avatar_url = ''''\<rparr>,
          \<lparr>login = ''bob'', contributions = 30, avatar_url = ''''\<rparr>]"]
  by (simp add: calculateBusFactor_def)

text \<open>
  Claim C4 as stated, with no condition on the counts, fails: with the counts 5 and
  -3 the total is 2, the ratio is 5/2, above 1, and the score is cut to 0, which is
  not 100 - 250.
\<close>

theorem busFactor_bounds_counterexample:
  "topContributorRatio (calculateBusFactor
       [\<lparr>login = ''alice'', contributions = 5, avatar_url = ''''\<rparr>,
        \<lparr>login = ''bob'', contributions = - 3, avatar_url = ''''\<rparr>]) = 5 / 2 \<and>
   BusFactorResult.score (calculateBusFactor
       [\<lparr>login = ''alice'', contributions = 5, avatar_url = ''''\<rparr>,
        \<lparr>login = ''bob'', contributions = - 3, avatar_url = ''''\<rparr>]) = 0 \<and>
   \<not> topContributorRatio (calculateBusFactor
       [\<lparr>login = ''alice'', contributions = 5, avatar_url = ''''\<rparr>,
        \<lparr>login = ''bob'', contributions = - 3, avatar_url = ''''\<rparr>]) \<le> 1 \<and>
   BusFactorResult.score (calculateBusFactor
       [\<lparr>login = ''alice'', contributions = 5, avatar_url = ''''\<rparr>,
        \<lparr>login = ''bob'', contributions = - 3, avatar_url = ''''\<rparr>]) \<noteq>
     100 - topContributorRatio (calculateBusFactor
       [\<lparr>login = ''alice'', contributions = 5, avatar_url = ''''\<rparr>,
        \<lparr>login = ''bob'', contributions = - 3, avatar_url = ''''\<rparr>]) * 100"
  by (simp add: calculateBusFactor_def)

section \<open>Facts about the health score\<close>

lemma floor_rat_numeral:
  "\<lfloor>numeral a / numeral b :: rat\<rfloor> = numeral a div numeral b"
  using floor_divide_of_int_eq [of "numeral a" "numeral b", where ?'a = rat] by simp

lemma floor_rat_minus_numeral:
  "\<lfloor>- (numeral a / numeral b) :: rat\<rfloor> = - numeral a div numeral b"
  using floor_divide_of_int_eq [of "- numeral a" "numeral b", where ?'a = rat] by simp

lemma ceiling_rat_numeral:
  "\<lceil>numeral a / numeral b :: rat\<rceil> = - (- numeral a div numeral b)"
  unfolding ceiling_def
  using floor_divide_of_int_eq [of "- numeral a" "numeral b", where ?'a = rat] by simp

lemmas double_eval = toDouble_def floorLog2_def roundHalfEven_def pow2_def
  double_add_def double_mul_def double_div_def Let_def
  floor_rat_numeral floor_rat_minus_numeral ceiling_rat_numeral compute_floorlog

lemma toDouble_examples:
  "toDouble 0 = 0" "toDouble 1 = 1" "toDouble 10 = 10" "toDouble (5 / 4) = 5 / 4"
  "toDouble (1 / 10) = 3602879701896397 / 36028797018963968"
  "toDouble (13 / 10) = 5854679515581645 / 4503599627370496"
  "toDouble (46 / 10) = 2589569785738035 / 562949953421312"
  "toDouble (23 / 5) = 2589569785738035 / 562949953421312"
  "toDouble (23 / 10) = 2589569785738035 / 1125899906842624"
  "toDouble 9007199254740993 = 9007199254740992"
  "toDouble 9007199254740995 = 9007199254740996"
  "toDouble (- (1 / 10)) = - (3602879701896397 / 36028797018963968)"
  by (simp_all add: double_eval)

lemma foldl_metrics:
  "foldl (\<lambda>acc hs.
            \<lparr>totalIssues = totalIssues acc + totalIssues (metrics hs),
              closedIssues = closedIssues acc + closedIssues (metrics hs),
              totalPRs = totalPRs acc + totalPRs (metrics hs),
              mergedPRs = mergedPRs acc + mergedPRs (metrics hs),
              avgMergeTimeHours =
                double_add (avgMergeTimeHours acc) (avgMergeTimeHours (metrics hs))\<rparr>)
         acc0 hss =
   \<lparr>totalIssues = totalIssues acc0 + sum_list (map (\<lambda>hs. totalIssues (metrics hs)) hss),
     closedIssues = closedIssues acc0 + sum_list (map (\<lambda>hs. closedIssues (metrics hs)) hss),
     totalPRs = totalPRs acc0 + sum_list (map (\<lambda>hs. totalPRs (metrics hs)) hss),
     mergedPRs = mergedPRs acc0 + sum_list (map (\<lambda>hs. mergedPRs (metrics hs)) hss),
     avgMergeTimeHours =
       foldl double_add (avgMergeTimeHours acc0)
         (map (\<lambda>hs. avgMergeTimeHours (metrics hs)) hss)\<rparr>"
  by (induction hss arbitrary: acc0) (simp_all add: add.assoc)

text \<open>
  Claim C5. Whatever the input of \<open>calculateHealthScore\<close>: when no issue is left after
  the pull-request entries are filtered out, the \<open>issueResolution\<close> sub-score is 40, and
  when the pull-request list is empty, the \<open>prMergeRate\<close> sub-score is 40.
\<close>

theorem health_absent_data_max_subscore:
  "(filter (\<lambda>i. pull_request i = None) issues = [] \<longrightarrow>
      issueResolution (breakdown (calculateHealthScore getTime issues prs)) = 40) \<and>
   (prs = [] \<longrightarrow>
      prMergeRate (breakdown (calculateHealthScore getTime issues prs)) = 40)"
  by (simp add: calculateHealthScore_def Let_def Math_round_def floor_eq_iff)

theorem health_absent_data_max_subscore_witness:
  "filter (\<lambda>i. pull_request i = None)
      [\<lparr>issue_id = 1, issue_number = 7, issue_state = Open,
        issue_created_at = ''2024-01-01T00:00:00Z'', issue_closed_at = None,
        pull_request = Some \<lparr>ref_merged_at = None\<rparr>\<rparr>] = [] \<and>
   issueResolution (breakdown (calculateHealthScore (\<lambda>t. 0)
      [\<lparr>issue_id = 1, issue_number = 7, issue_state = Open,
        issue_created_at = ''2024-01-01T00:00:00Z'', issue_closed_at = None,
        pull_request = Some \<lparr>ref_merged_at = None\<rparr>\<rparr>] [])) = 40 \<and>
   prMergeRate (breakdown (calculateHealthScore (\<lambda>t. 0)
      [\<lparr>issue_id = 1, issue_number = 7, issue_state = Open,
        issue_created_at = ''2024-01-01T00:00:00Z'', issue_closed_at = None,
        pull_request = Some \<lparr>ref_merged_at = None\<rparr>\<rparr>] [])) = 40"
  using health_absent_data_max_subscore
    [of "[\<lparr>issue_id = 1, issue_number = 7, issue_state = Open,
        issue_created_at = ''2024-01-01T00:00:00Z'', issue_closed_at = None,
        pull_request = Some \<lparr>ref_merged_at = None\<rparr>\<rparr>]" "\<lambda>t. 0" "[]"]
  by simp

text \<open>
  Claim C3, as amended. \<open>calculateAverageHealthScore\<close> of the empty list is score 0,
  grade POOR, and a breakdown and metrics that are all zero. For every non-empty list
  the four count metrics are the sums over the list, and \<open>avgMergeTimeHours\<close> is the
  sum of the per-repository averages (added from left to right) divided by the number
  of results, rounded to one decimal place (\<open>Math.round(x * 10) / 10\<close>), each of
  these operations in double arithmetic.
\<close>

theorem averageHealth_empty_sums_rounded_mean:
  "calculateAverageHealthScore [] =
     \<lparr>score = 0, grade = POOR,
       breakdown = \<lparr>issueResolution = 0, prMergeRate = 0, prSpeed = 0\<rparr>,
       metrics = \<lparr>totalIssues = 0, closedIssues = 0, totalPRs = 0, mergedPRs = 0,
                   avgMergeTimeHours = 0\<rparr>\<rparr> \<and>
   (hss \<noteq> [] \<longrightarrow>
      totalIssues (metrics (calculateAverageHealthScore hss)) =
        sum_list (map (\<lambda>hs. totalIssues (metrics hs)) hss) \<and>
      closedIssues (metrics (calculateAverageHealthScore hss)) =
        sum_list (map (\<lambda>hs. closedIssues (metrics hs)) hss) \<and>
      totalPRs (metrics (calculateAverageHealthScore hss)) =
        sum_list (map (\<lambda>hs. totalPRs (metrics hs)) hss) \<and>
      mergedPRs (metrics (calculateAverageHealthScore hss)) =
        sum_list (map (\<lambda>hs. mergedPRs (metrics hs)) hss) \<and>
      avgMergeTimeHours (metrics (calculateAverageHealthScore hss)) =
        double_div
          (Math_round
             (double_mul
                (double_div
                   (foldl double_add 0 (map (\<lambda>hs. avgMergeTimeHours (metrics hs)) hss))
                   (of_nat (length hss)))
                10))
          10)"
  by (simp add: calculateAverageHealthScore_def Let_def foldl_metrics)

theorem averageHealth_empty_sums_rounded_mean_witness:
  "[\<lparr>score = 80, grade = EXCELLENT,
      breakdown = \<lparr>issueResolution = 40, prMergeRate = 40, prSpeed = 0\<rparr>,
      metrics = \<lparr>totalIssues = 3, closedIssues = 3, totalPRs = 2, mergedPRs = 2,
                  avgMergeTimeHours = toDouble (1 / 10)\<rparr>\<rparr>,
    \<lparr>score = 90, grade = EXCELLENT,
      breakdown = \<lparr>issueResolution = 30, prMergeRate = 40, prSpeed = 20\<rparr>,
      metrics = \<lparr>totalIssues = 8, closedIssues = 6, totalPRs = 5, mergedPRs = 5,
                  avgMergeTimeHours = toDouble (23 / 5)\<rparr>\<rparr>] \<noteq> [] \<and>
   metrics (calculateAverageHealthScore
     [\<lparr>score = 80, grade = EXCELLENT,
        breakdown = \<lparr>issueResolution = 40, prMergeRate = 40, prSpeed = 0\<rparr>,
        metrics = \<lparr>totalIssues = 3, closedIssues = 3, totalPRs = 2, mergedPRs = 2,
                    avgMergeTimeHours = toDouble (1 / 10)\<rparr>\<rparr>,
      \<lparr>score = 90, grade = EXCELLENT,
        breakdown = \<lparr>issueResolution = 30, prMergeRate = 40, prSpeed = 20\<rparr>,
        metrics = \<lparr>totalIssues = 8, closedIssues = 6, totalPRs = 5, mergedPRs = 5,
                    avgMergeTimeHours = toDouble (23 / 5)\<rparr>\<rparr>]) =
     \<lparr>totalIssues = 11, closedIssues = 9, totalPRs = 7, mergedPRs = 7,
       avgMergeTimeHours = toDouble (23 / 10)\<rparr> \<and>
   toDouble (1 / 10) + toDouble (23 / 5) < 47 / 10 \<and>
   double_add (toDouble (1 / 10)) (toDouble (23 / 5)) = 5291729562160332 / 1125899906842624"
proof -
  let ?hss = "[\<lparr>score = 80, grade = EXCELLENT,
        breakdown = \<lparr>issueResolution = 40, prMergeRate = 40, prSpeed = 0\<rparr>,
        metrics = \<lparr>totalIssues = 3, closedIssues = 3, totalPRs = 2, mergedPRs = 2,
                    avgMergeTimeHours = toDouble (1 / 10)\<rparr>\<rparr>,
      \<lparr>score = 90, grade = EXCELLENT,
        breakdown = \<lparr>issueResolution = 30, prMergeRate = 40, prSpeed = 20\<rparr>,
        metrics = \<lparr>totalIssues = 8, closedIssues = 6, totalPRs = 5, mergedPRs = 5,
                    avgMergeTimeHours = toDouble (23 / 5)\<rparr>\<rparr>]"
  have ne: "?hss \<noteq> []" by simp
  have sum: "double_add (toDouble (1 / 10)) (toDouble (23 / 5)) =
      5291729562160332 / 1125899906842624"
    unfolding toDouble_examples by (simp add: double_eval)
  have half: "double_div (5291729562160332 / 1125899906842624) 2 =
      5291729562160332 / 2251799813685248"
    by (simp add: double_eval)
  have ten: "double_mul (5291729562160332 / 2251799813685248) 10 =
      6614661952700415 / 281474976710656"
    by (simp add: double_eval)
  have rnd: "Math_round (6614661952700415 / 281474976710656) = 23"
    by (simp add: Math_round_def floor_eq_iff)
  have last: "double_div 23 10 = toDouble (23 / 10)"
    by (simp add: double_div_def)
  have avg: "double_div
          (Math_round
             (double_mul
                (double_div
                   (foldl double_add 0 (map (\<lambda>hs. avgMergeTimeHours (metrics hs)) ?hss))
                   (of_nat (length ?hss)))
                10))
          10 = toDouble (23 / 10)"
  proof -
    have z: "double_add 0 (toDouble (1 / 10)) = toDouble (1 / 10)"
      unfolding toDouble_examples by (simp add: double_eval)
    have f: "foldl double_add 0 (map (\<lambda>hs. avgMergeTimeHours (metrics hs)) ?hss) =
        double_add (double_add 0 (toDouble (1 / 10))) (toDouble (23 / 5))"
      by simp
    have n: "(of_nat (length ?hss) :: rat) = 2" by simp
    show ?thesis unfolding f n z sum half ten rnd last ..
  qed
  from averageHealth_empty_sums_rounded_mean [of ?hss] ne
  have "totalIssues (metrics (calculateAverageHealthScore ?hss)) = 11 \<and>
      closedIssues (metrics (calculateAverageHealthScore ?hss)) = 9 \<and>
      totalPRs (metrics (calculateAverageHealthScore ?hss)) = 7 \<and>
      mergedPRs (metrics (calculateAverageHealthScore ?hss)) = 7 \<and>
      avgMergeTimeHours (metrics (calculateAverageHealthScore ?hss)) = toDouble (23 / 10)"
    unfolding avg by simp
  then have m: "metrics (calculateAverageHealthScore ?hss) =
     \<lparr>totalIssues = 11, closedIssues = 9, totalPRs = 7, mergedPRs = 7,
       avgMergeTimeHours = toDouble (23 / 10)\<rparr>"
    by (simp add: Metrics.equality)
  have lt: "toDouble (1 / 10) + toDouble (23 / 5) < 47 / 10"
    unfolding toDouble_examples by simp
  from ne m lt sum show ?thesis by blast
qed

text \<open>
  Claim C3 as stated fails in its last part: for two results whose average merge
  times are 1 and 1.5 hours, the sum divided by the number of results is 1.25, and
  the function returns the double 1.3.
\<close>

theorem averageHealth_mean_counterexample:
  "avgMergeTimeHours (metrics (calculateAverageHealthScore
     [\<lparr>score = 80, grade = EXCELLENT,
        breakdown = \<lparr>issueResolution = 40, prMergeRate = 40, prSpeed = 0\<rparr>,
        metrics = \<lparr>totalIssues = 3, closedIssues = 3, totalPRs = 2, mergedPRs = 2,
                    avgMergeTimeHours = 1\<rparr>\<rparr>,
      \<lparr>score = 100, grade = EXCELLENT,
        breakdown = \<lparr>issueResolution = 40, prMergeRate = 40, prSpeed = 20\<rparr>,
        metrics = \<lparr>totalIssues = 8, closedIssues = 8, totalPRs = 5, mergedPRs = 5,
                    avgMergeTimeHours = 3 / 2\<rparr>\<rparr>])) = toDouble (13 / 10) \<and>
   toDouble (13 / 10) = 5854679515581645 / 4503599627370496 \<and>
   (1 + 3 / 2) / (2 :: rat) = 5 / 4 \<and>
   avgMergeTimeHours (metrics (calculateAverageHealthScore
     [\<lparr>score = 80, grade = EXCELLENT,
        breakdown = \<lparr>issueResolution = 40, prMergeRate = 40, prSpeed = 0\<rparr>,
        metrics = \<lparr>totalIssues = 3, closedIssues = 3, totalPRs = 2, mergedPRs = 2,
                    avgMergeTimeHours = 1\<rparr>\<rparr>,
      \<lparr>score = 100, grade = EXCELLENT,
        breakdown = \<lparr>issueResolution = 40, prMergeRate = 40, prSpeed = 20\<rparr>,
        metrics = \<lparr>totalIssues = 8, closedIssues = 8, totalPRs = 5, mergedPRs = 5,
                    avgMergeTimeHours = 3 / 2\<rparr>\<rparr>])) \<noteq> (1 + 3 / 2) / 2"
proof -
  let ?hss = "[\<lparr>score = 80, grade = EXCELLENT,
        breakdown = \<lparr>issueResolution = 40, prMergeRate = 40, prSpeed = 0\<rparr>,
        metrics = \<lparr>totalIssues = 3, closedIssues = 3, totalPRs = 2, mergedPRs = 2,
                    avgMergeTimeHours = 1\<rparr>\<rparr>,
      \<lparr>score = 100, grade = EXCELLENT,
        breakdown = \<lparr>issueResolution = 40, prMergeRate = 40, prSpeed = 20\<rparr>,
        metrics = \<lparr>totalIssues = 8, closedIssues = 8, totalPRs = 5, mergedPRs = 5,
                    avgMergeTimeHours = 3 / 2\<rparr>\<rparr>]"
  have a: "double_add 0 1 = 1" "double_add 1 (3 / 2) = 5 / 2"
    "double_div (5 / 2) 2 = 5 / 4" "double_mul (5 / 4) 10 = 25 / 2"
    "Math_round (25 / 2) = 13" "double_div 13 10 = toDouble (13 / 10)"
    by (simp_all add: double_eval Math_round_def)
  have r: "avgMergeTimeHours (metrics (calculateAverageHealthScore ?hss)) = toDouble (13 / 10)"
    by (simp add: calculateAverageHealthScore_def Let_def a)
  have v: "toDouble (13 / 10) = 5854679515581645 / 4503599627370496"
    by (rule toDouble_examples)
  have "avgMergeTimeHours (metrics (calculateAverageHealthScore ?hss)) \<noteq> (1 + 3 / 2) / 2"
    unfolding r v by simp
  with r v show ?thesis by simp
qed

text \<open>
  Claim C10. For a non-empty list the grade is taken from the unrounded mean of the
  scores and the score returned is that mean rounded. So for four repositories with
  score 80 and one with score 78 the mean is 79.6: the score returned is 80 and the
  grade is GOOD, not EXCELLENT.
\<close>

theorem averageHealth_grade_from_unrounded_mean:
  "(hss \<noteq> [] \<longrightarrow>
      score (calculateAverageHealthScore hss) =
        Math_round (sum_list (map score hss) / of_nat (length hss)) \<and>
      grade (calculateAverageHealthScore hss) =
        gradeOf (sum_list (map score hss) / of_nat (length hss))) \<and>
   (\<exists>hss. hss \<noteq> [] \<and>
      sum_list (map score hss) / of_nat (length hss) = 398 / 5 \<and>
      score (calculateAverageHealthScore hss) \<ge> 80 \<and>
      grade (calculateAverageHealthScore hss) = GOOD)"
proof -
  let ?r80 = "\<lparr>score = 80, grade = EXCELLENT,
        breakdown = \<lparr>issueResolution = 40, prMergeRate = 40, prSpeed = 0\<rparr>,
        metrics = \<lparr>totalIssues = 3, closedIssues = 3, totalPRs = 2, mergedPRs = 2,
                    avgMergeTimeHours = 50\<rparr>\<rparr>"
  let ?r78 = "\<lparr>score = 78, grade = GOOD,
        breakdown = \<lparr>issueResolution = 38, prMergeRate = 40, prSpeed = 0\<rparr>,
        metrics = \<lparr>totalIssues = 20, closedIssues = 19, totalPRs = 1, mergedPRs = 1,
                    avgMergeTimeHours = 72\<rparr>\<rparr>"
  have general: "score (calculateAverageHealthScore hss) =
        Math_round (sum_list (map score hss) / of_nat (length hss)) \<and>
      grade (calculateAverageHealthScore hss) =
        gradeOf (sum_list (map score hss) / of_nat (length hss))" if "hss \<noteq> []" for hss
    using that by (simp add: calculateAverageHealthScore_def Let_def foldl_add_sum_list)
  have mean: "sum_list (map score [?r80, ?r80, ?r80, ?r80, ?r78]) / of_nat (length [?r80, ?r80, ?r80, ?r80, ?r78]) = 398 / 5"
    by simp
  have "score (calculateAverageHealthScore [?r80, ?r80, ?r80, ?r80, ?r78]) = 80"
    by (simp add: calculateAverageHealthScore_def Let_def Math_round_def floor_eq_iff)
  moreover have "grade (calculateAverageHealthScore [?r80, ?r80, ?r80, ?r80, ?r78]) = GOOD"
    by (simp add: calculateAverageHealthScore_def Let_def gradeOf_def)
  ultimately have "\<exists>hss. hss \<noteq> [] \<and>
      sum_list (map score hss) / of_nat (length hss) = 398 / 5 \<and>
      score (calculateAverageHealthScore hss) \<ge> 80 \<and>
      grade (calculateAverageHealthScore hss) = GOOD"
    using mean by (intro exI [of _ "[?r80, ?r80, ?r80, ?r80, ?r78]"]) simp
  with general show ?thesis by blast
qed

theorem averageHealth_grade_from_unrounded_mean_witness:
  "score (calculateAverageHealthScore
     [\<lparr>score = 80, grade = EXCELLENT,
        breakdown = \<lparr>issueResolution = 40, prMergeRate = 40, prSpeed = 0\<rparr>,
        metrics = \<lparr>totalIssues = 3, closedIssues = 3, totalPRs = 2, mergedPRs = 2,
                    avgMergeTimeHours = 50\<rparr>\<rparr>,
      \<lparr>score = 79, grade = GOOD,
        breakdown = \<lparr>issueResolution = 39, prMergeRate = 40, prSpeed = 0\<rparr>,
        metrics = \<lparr>totalIssues = 40, closedIssues = 39, totalPRs = 1, mergedPRs = 1,
                    avgMergeTimeHours = 72\<rparr>\<rparr>]) = 80 \<and>
   grade (calculateAverageHealthScore
     [\<lparr>score = 80, grade = EXCELLENT,
        breakdown = \<lparr>issueResolution = 40, prMergeRate = 40, prSpeed = 0\<rparr>,
        metrics = \<lparr>totalIssues = 3, closedIssues = 3, totalPRs = 2, mergedPRs = 2,
                    avgMergeTimeHours = 50\<rparr>\<rparr>,
      \<lparr>score = 79, grade = GOOD,
        breakdown = \<lparr>issueResolution = 39, prMergeRate = 40, prSpeed = 0\<rparr>,
        metrics = \<lparr>totalIssues = 40, closedIssues = 39, totalPRs = 1, mergedPRs = 1,
                    avgMergeTimeHours = 72\<rparr>\<rparr>]) = GOOD"
  using averageHealth_grade_from_unrounded_mean
    [of "[\<lparr>score = 80, grade = EXCELLENT,
        breakdown = \<lparr>issueResolution = 40, prMergeRate = 40, prSpeed = 0\<rparr>,
        metrics = \<lparr>totalIssues = 3, closedIssues = 3, totalPRs = 2, mergedPRs = 2,
                    avgMergeTimeHours = 50\<rparr>\<rparr>,
      \<lparr>score = 79, grade = GOOD,
        breakdown = \<lparr>issueResolution = 39, prMergeRate = 40, prSpeed = 0\<rparr>,
        metrics = \<lparr>totalIssues = 40, closedIssues = 39, totalPRs = 1, mergedPRs = 1,
                    avgMergeTimeHours = 72\<rparr>\<rparr>]"]
  by (simp add: Math_round_def gradeOf_def floor_eq_iff)

section \<open>Facts about the fetch client\<close>

declare fetchLoop.simps [simp del]








lemma handleRateLimit_fetched [simp]:
  "fetched (handleRateLimit now r run) = fetched run"
  by (simp add: handleRateLimit_def Let_def split: option.splits)








section \<open>Facts about the pagination\<close>

declare showNat.simps [simp del]

lemma fetchWithRetry_first_try:
  assumes "0 < retries" "ok (server env u (length (fetched run)))"
    "status (server env u (length (fetched run))) \<noteq> 403"
  shows "fetchWithRetry env u retries run =
           (Inr (server env u (length (fetched run))), run\<lparr>fetched := fetched run @ [u]\<rparr>)"
  using assms unfolding fetchWithRetry_def
  by (subst fetchLoop.simps) (simp add: Let_def)

lemma fetchUserReposLoop_pages:
  fixes env :: "(string, 'r list) Env"
  assumes "page \<le> k"
    and "\<And>p n. page \<le> p \<Longrightarrow> p \<le> k \<Longrightarrow>
           ok (server env (userReposUrl username p 100) n) \<and>
           status (server env (userReposUrl username p 100) n) \<noteq> 403 \<and>
           body (server env (userReposUrl username p 100) n) = pages p"
    and "\<And>p. page \<le> p \<Longrightarrow> p < k \<Longrightarrow> 100 \<le> length (pages p)"
    and "length (pages k) < 100"
  shows "fetchUserReposLoop env username page acc run =
           Some (Inr (acc @ concat (map pages [page..<Suc k])),
                 run\<lparr>fetched := fetched run
                        @ map (\<lambda>p. userReposUrl username p 100) [page..<Suc k]\<rparr>)"
  using assms
proof (induction "k - page" arbitrary: page acc run)
  case 0
  then have pk: "page = k" by simp
  let ?u = "userReposUrl username k 100"
  let ?r = "server env ?u (length (fetched run))"
  from "0.prems"(2) [of k "length (fetched run)"] pk
  have r: "ok ?r" "status ?r \<noteq> 403" "body ?r = pages k" by simp_all
  have f: "fetchWithRetry env ?u 3 run = (Inr ?r, run\<lparr>fetched := fetched run @ [?u]\<rparr>)"
    using r by (intro fetchWithRetry_first_try) simp_all
  show ?case
    using "0.prems"(4) r(3) unfolding pk
    by (subst fetchUserReposLoop.simps) (simp add: Let_def f)
next
  case (Suc d)
  then have lt: "page < k" and d: "d = k - (page + 1)" by simp_all
  let ?u = "userReposUrl username page 100"
  let ?r = "server env ?u (length (fetched run))"
  let ?run1 = "run\<lparr>fetched := fetched run @ [?u]\<rparr>"
  from Suc.prems(2) [of page "length (fetched run)"] lt
  have r: "ok ?r" "status ?r \<noteq> 403" "body ?r = pages page" by simp_all
  have f: "fetchWithRetry env ?u 3 run = (Inr ?r, ?run1)"
    using r by (intro fetchWithRetry_first_try) simp_all
  from Suc.prems(3) [of page] lt have full: "100 \<le> length (pages page)" by simp
  have step: "fetchUserReposLoop env username page acc run =
      fetchUserReposLoop env username (page + 1) (acc @ pages page) ?run1"
    using full r(3) by (subst fetchUserReposLoop.simps) (auto simp add: Let_def f)
  have IH: "fetchUserReposLoop env username (page + 1) (acc @ pages page) ?run1 =
      Some (Inr ((acc @ pages page) @ concat (map pages [page + 1..<Suc k])),
            ?run1\<lparr>fetched := fetched ?run1
                        @ map (\<lambda>p. userReposUrl username p 100) [page + 1..<Suc k]\<rparr>)"
  proof (rule Suc.hyps(1) [OF d])
    show "page + 1 \<le> k" using lt by simp
    show "ok (server env (userReposUrl username p 100) n) \<and>
           status (server env (userReposUrl username p 100) n) \<noteq> 403 \<and>
           body (server env (userReposUrl username p 100) n) = pages p"
      if "page + 1 \<le> p" "p \<le> k" for p n
      using Suc.prems(2) [of p n] that by simp
    show "100 \<le> length (pages p)" if "page + 1 \<le> p" "p < k" for p
      using Suc.prems(3) [of p] that by simp
    show "length (pages k) < 100" by (rule Suc.prems(4))
  qed
  have up: "[page..<Suc k] = page # [page + 1..<Suc k]"
    using lt by (simp add: upt_conv_Cons)
  show ?case unfolding step IH up by simp
qed

lemma pagedServer_ok:
  "ok (server (pagedServer username sizes) u n) \<and>
   status (server (pagedServer username sizes) u n) \<noteq> 403 \<and>
   body (server (pagedServer username sizes) u n) = pageOf username sizes u"
  by (simp add: pagedServer_def ok_def)

lemma pageOf_three:
  "pageOf ''octocat'' [100, 100, 37] (userReposUrl ''octocat'' 1 100) = replicate 100 1"
  "pageOf ''octocat'' [100, 100, 37] (userReposUrl ''octocat'' (Suc 0) 100) = replicate 100 1"
  "pageOf ''octocat'' [100, 100, 37] (userReposUrl ''octocat'' 2 100) = replicate 100 2"
  "pageOf ''octocat'' [100, 100, 37] (userReposUrl ''octocat'' 3 100) = replicate 37 3"
  by (simp_all add: pageOf_def userReposUrl_def GITHUB_API_BASE_def showNat.simps upt_rec
        char_of_def bit_Suc_0_iff)

lemma pageOf_four:
  "pageOf ''octocat'' [100, 100, 100, 0] (userReposUrl ''octocat'' 1 100) = replicate 100 1"
  "pageOf ''octocat'' [100, 100, 100, 0] (userReposUrl ''octocat'' (Suc 0) 100) = replicate 100 1"
  "pageOf ''octocat'' [100, 100, 100, 0] (userReposUrl ''octocat'' 2 100) = replicate 100 2"
  "pageOf ''octocat'' [100, 100, 100, 0] (userReposUrl ''octocat'' 3 100) = replicate 100 3"
  "pageOf ''octocat'' [100, 100, 100, 0] (userReposUrl ''octocat'' 4 100) = []"
  by (simp_all add: pageOf_def userReposUrl_def GITHUB_API_BASE_def showNat.simps upt_rec
        char_of_def bit_Suc_0_iff)

text \<open>
  Claim C6. \<open>fetchUserRepos\<close> asks for page 1 first, with page size 100. When the
  pages 1 to \<open>k - 1\<close> are full and page \<open>k\<close> is shorter than 100 records (empty
  included), it returns the pages 1 to \<open>k\<close> joined in order and has sent exactly the
  \<open>k\<close> requests for these pages, one each and in order. For pages of sizes 100, 100
  and 37 that is 237 records and three requests; for sizes 100, 100, 100 and 0 it is
  four requests, the last one for the empty page.
\<close>

theorem fetchUserRepos_walks_pages:
  fixes env :: "(string, 'r list) Env"
  assumes "1 \<le> k"
    and "\<forall>p n. 1 \<le> p \<and> p \<le> k \<longrightarrow>
           ok (server env (userReposUrl username p 100) n) \<and>
           status (server env (userReposUrl username p 100) n) \<noteq> 403 \<and>
           body (server env (userReposUrl username p 100) n) = pages p"
    and "\<forall>p. 1 \<le> p \<and> p < k \<longrightarrow> 100 \<le> length (pages p)"
    and "length (pages k) < 100"
  shows "fetchUserRepos env username run =
           Some (Inr (concat (map pages [1..<Suc k])),
                 run\<lparr>fetched := fetched run
                        @ map (\<lambda>p. userReposUrl username p 100) [1..<Suc k]\<rparr>)"
  unfolding fetchUserRepos_def
  using fetchUserReposLoop_pages [of 1 k env username pages "[]" run] assms
  by simp

theorem fetchUserRepos_walks_pages_witness:
  "fetchUserRepos (pagedServer ''octocat'' [100, 100, 37]) ''octocat''
       \<lparr>fetched = [], slept = []\<rparr> =
     Some (Inr (replicate 100 1 @ replicate 100 2 @ replicate 37 3),
           \<lparr>fetched = [userReposUrl ''octocat'' 1 100, userReposUrl ''octocat'' 2 100,
                       userReposUrl ''octocat'' 3 100],
             slept = []\<rparr>) \<and>
   length (replicate 100 (1 :: nat) @ replicate 100 2 @ replicate 37 3) = 237 \<and>
   fetchUserRepos (pagedServer ''octocat'' [100, 100, 100, 0]) ''octocat''
       \<lparr>fetched = [], slept = []\<rparr> =
     Some (Inr (replicate 100 1 @ replicate 100 2 @ replicate 100 3),
           \<lparr>fetched = [userReposUrl ''octocat'' 1 100, userReposUrl ''octocat'' 2 100,
                       userReposUrl ''octocat'' 3 100, userReposUrl ''octocat'' 4 100],
             slept = []\<rparr>)"
proof -
  let ?P3 = "\<lambda>p. pageOf ''octocat'' [100, 100, 37] (userReposUrl ''octocat'' p 100)"
  let ?P4 = "\<lambda>p. pageOf ''octocat'' [100, 100, 100, 0] (userReposUrl ''octocat'' p 100)"
  have full3: "\<forall>p. 1 \<le> p \<and> p < 3 \<longrightarrow> 100 \<le> length (?P3 p)"
  proof (intro allI impI)
    fix p :: nat
    assume "1 \<le> p \<and> p < 3"
    then consider "p = 1" | "p = 2" by arith
    then show "100 \<le> length (?P3 p)" by cases (simp_all add: pageOf_three)
  qed
  have full4: "\<forall>p. 1 \<le> p \<and> p < 4 \<longrightarrow> 100 \<le> length (?P4 p)"
  proof (intro allI impI)
    fix p :: nat
    assume "1 \<le> p \<and> p < 4"
    then consider "p = 1" | "p = 2" | "p = 3" by arith
    then show "100 \<le> length (?P4 p)" by cases (simp_all add: pageOf_four)
  qed
  have up3: "[1..<Suc 3] = [1, 2, 3]" and up4: "[1..<Suc 4] = [1, 2, 3, 4]"
    by (simp_all add: upt_rec)
  have A: "fetchUserRepos (pagedServer ''octocat'' [100, 100, 37]) ''octocat''
       \<lparr>fetched = [], slept = []\<rparr> =
     Some (Inr (concat (map ?P3 [1..<Suc 3])),
           \<lparr>fetched = [], slept = []\<rparr>\<lparr>fetched := fetched \<lparr>fetched = [] :: string list, slept = []\<rparr>
              @ map (\<lambda>p. userReposUrl ''octocat'' p 100) [1..<Suc 3]\<rparr>)"
    by (rule fetchUserRepos_walks_pages [where k = 3 and pages = ?P3])
       (simp_all add: pagedServer_ok full3 pageOf_three)
  have B: "fetchUserRepos (pagedServer ''octocat'' [100, 100, 100, 0]) ''octocat''
       \<lparr>fetched = [], slept = []\<rparr> =
     Some (Inr (concat (map ?P4 [1..<Suc 4])),
           \<lparr>fetched = [], slept = []\<rparr>\<lparr>fetched := fetched \<lparr>fetched = [] :: string list, slept = []\<rparr>
              @ map (\<lambda>p. userReposUrl ''octocat'' p 100) [1..<Suc 4]\<rparr>)"
    by (rule fetchUserRepos_walks_pages [where k = 4 and pages = ?P4])
       (simp_all add: pagedServer_ok full4 pageOf_four)
  show ?thesis
    unfolding A B up3 up4 by (simp add: pageOf_three pageOf_four)
qed

section \<open>Facts about the stress score\<close>

lemma startsWith_iff: "startsWith s k \<longleftrightarrow> (\<exists>q. s = k @ q)"
  by (induction s k rule: startsWith.induct) auto

lemma includesStr_iff: "includesStr s k \<longleftrightarrow> (\<exists>p q. s = p @ k @ q)"
proof (induction s)
  case Nil
  then show ?case by simp
next
  case (Cons c cs)
  show ?case
  proof
    assume "includesStr (c # cs) k"
    then consider "startsWith (c # cs) k" | "includesStr cs k" by auto
    then show "\<exists>p q. c # cs = p @ k @ q"
    proof cases
      case 1
      then obtain q where "c # cs = k @ q" by (auto simp: startsWith_iff)
      then have "c # cs = [] @ k @ q" by simp
      then show ?thesis by blast
    next
      case 2
      with Cons obtain p q where "cs = p @ k @ q" by auto
      then have "c # cs = (c # p) @ k @ q" by simp
      then show ?thesis by blast
    qed
  next
    assume "\<exists>p q. c # cs = p @ k @ q"
    then obtain p q where pq: "c # cs = p @ k @ q" by auto
    show "includesStr (c # cs) k"
    proof (cases p)
      case Nil
      with pq have "startsWith (c # cs) k" by (auto simp: startsWith_iff)
      then show ?thesis by simp
    next
      case (Cons a p')
      with pq have "cs = p' @ k @ q" by simp
      with Cons.IH have "includesStr cs k" by blast
      then show ?thesis by simp
    qed
  qed
qed

lemma toLowerCase_append: "toLowerCase (a @ b) = toLowerCase a @ toLowerCase b"
  by (simp add: toLowerCase_def)

lemma toLowerCase_urgent_hotfix: "toLowerCase ''urgent hotfix'' = ''urgent hotfix''"
  by (simp add: toLowerCase_def lowerChar_def)

lemma urgent_in_lower_case:
  assumes "includesStr m ''urgent hotfix''"
  shows "includesStr (toLowerCase m) ''urgent''"
proof -
  from assms obtain p q where "m = p @ ''urgent hotfix'' @ q"
    by (auto simp: includesStr_iff)
  then have "toLowerCase m = toLowerCase p @ ''urgent hotfix'' @ toLowerCase q"
    by (simp only: toLowerCase_append toLowerCase_urgent_hotfix)
  then have "toLowerCase m = toLowerCase p @ ''urgent'' @ ('' hotfix'' @ toLowerCase q)"
    by simp
  then show "includesStr (toLowerCase m) ''urgent''"
    unfolding includesStr_iff by blast
qed

text \<open>
  Claim C9. For every non-empty commit set, the stress score \<open>calculateStressScore\<close>
  gives a commit is the sum of three contributions, cut at 1: 0.4 when its message,
  in lower case, contains a stress keyword; 0.35 when its file count exceeds twice
  the mean file count of the set; 0.25 when its hour is in the night window (22 or
  later, or before 5) and its file count exceeds the mean. Every other field of the
  commit is kept. So in every commit set whose mean file count is 5, a commit made at
  hour 2 that touches 15 files and whose message contains \<open>urgent hotfix\<close> matches the
  keyword \<open>urgent\<close>, gets each of the three contributions 0.4, 0.35 and 0.25, and
  its stress score is their sum cut at 1, which is exactly 1.
\<close>

theorem stress_urgent_hotfix_at_night:
  assumes "i < length cs"
  shows
  "calculateStressScore cs ! i =
     (cs ! i)\<lparr>stressScore :=
        min ((if list_ex (\<lambda>keyword. includesStr (toLowerCase (message (cs ! i))) keyword)
                   STRESS_KEYWORDS
              then 4 / 10 else 0)
             + (if filesCount (cs ! i)
                     > foldl (\<lambda>sum c. sum + filesCount c) 0 cs / of_nat (length cs) * 2
                then 35 / 100 else 0)
             + (if (hour (cs ! i) \<ge> 22 \<or> hour (cs ! i) < 5) \<and>
                   filesCount (cs ! i)
                     > foldl (\<lambda>sum c. sum + filesCount c) 0 cs / of_nat (length cs)
                then 25 / 100 else 0))
            1\<rparr> \<and>
   length (calculateStressScore cs) = length cs \<and>
   (foldl (\<lambda>sum c. sum + filesCount c) 0 cs / of_nat (length cs) = 5 \<and>
    hour (cs ! i) = 2 \<and> filesCount (cs ! i) = 15 \<and>
    includesStr (message (cs ! i)) ''urgent hotfix'' \<longrightarrow>
      ''urgent'' \<in> set STRESS_KEYWORDS \<and>
      includesStr (toLowerCase (message (cs ! i))) ''urgent'' \<and>
      (if list_ex (\<lambda>keyword. includesStr (toLowerCase (message (cs ! i))) keyword)
            STRESS_KEYWORDS
       then 4 / 10 else 0) = (4 / 10 :: rat) \<and>
      (if filesCount (cs ! i)
            > foldl (\<lambda>sum c. sum + filesCount c) 0 cs / of_nat (length cs) * 2
       then 35 / 100 else 0) = (35 / 100 :: rat) \<and>
      (if (hour (cs ! i) \<ge> 22 \<or> hour (cs ! i) < 5) \<and>
          filesCount (cs ! i)
            > foldl (\<lambda>sum c. sum + filesCount c) 0 cs / of_nat (length cs)
       then 25 / 100 else 0) = (25 / 100 :: rat) \<and>
      stressScore (calculateStressScore cs ! i) = min (4 / 10 + 35 / 100 + 25 / 100) 1 \<and>
      stressScore (calculateStressScore cs ! i) = 1)"
proof -
  let ?mean = "foldl (\<lambda>sum c. sum + filesCount c) 0 cs / of_nat (length cs)"
  let ?c = "cs ! i"
  let ?kw = "if list_ex (\<lambda>keyword. includesStr (toLowerCase (message ?c)) keyword)
                  STRESS_KEYWORDS
             then 4 / 10 else (0 :: rat)"
  let ?spike = "if filesCount ?c > ?mean * 2 then 35 / 100 else (0 :: rat)"
  let ?night = "if (hour ?c \<ge> 22 \<or> hour ?c < 5) \<and> filesCount ?c > ?mean
                then 25 / 100 else (0 :: rat)"
  from assms have ne: "length cs \<noteq> 0" by auto
  have so: "stressOf m c =
      min ((if list_ex (\<lambda>keyword. includesStr (toLowerCase (message c)) keyword)
                  STRESS_KEYWORDS
            then 4 / 10 else 0)
           + (if filesCount c > m * 2 then 35 / 100 else 0)
           + (if (hour c \<ge> 22 \<or> hour c < 5) \<and> filesCount c > m
              then 25 / 100 else 0)) 1" for m c
    by (simp add: stressOf_def Let_def)
  have formula: "calculateStressScore cs ! i = ?c\<lparr>stressScore := min (?kw + ?spike + ?night) 1\<rparr>"
    using assms ne by (simp add: calculateStressScore_def Let_def so)
  have len: "length (calculateStressScore cs) = length cs"
    by (simp add: calculateStressScore_def Let_def)
  have scenario: "''urgent'' \<in> set STRESS_KEYWORDS \<and>
      includesStr (toLowerCase (message ?c)) ''urgent'' \<and>
      ?kw = 4 / 10 \<and> ?spike = 35 / 100 \<and> ?night = 25 / 100 \<and>
      stressScore (calculateStressScore cs ! i) = min (4 / 10 + 35 / 100 + 25 / 100) 1 \<and>
      stressScore (calculateStressScore cs ! i) = 1"
    if h: "?mean = 5 \<and> hour ?c = 2 \<and> filesCount ?c = 15 \<and>
           includesStr (message ?c) ''urgent hotfix''"
  proof -
    from h have inc: "includesStr (message ?c) ''urgent hotfix''" by simp
    note u = urgent_in_lower_case [OF inc]
    have k: "''urgent'' \<in> set STRESS_KEYWORDS" by (simp add: STRESS_KEYWORDS_def)
    from u k have "list_ex (\<lambda>keyword. includesStr (toLowerCase (message ?c)) keyword)
        STRESS_KEYWORDS"
      unfolding list_ex_iff by blast
    then have kw: "?kw = 4 / 10" by simp
    from h have spike: "?spike = 35 / 100" by simp
    from h have night: "?night = 25 / 100" by simp
    have "stressScore (calculateStressScore cs ! i) = min (?kw + ?spike + ?night) 1"
      unfolding formula by simp
    then have sc: "stressScore (calculateStressScore cs ! i) = min (4 / 10 + 35 / 100 + 25 / 100) 1"
      unfolding kw spike night .
    then have "stressScore (calculateStressScore cs ! i) = 1" by simp
    with k u kw spike night sc show ?thesis by blast
  qed
  from formula len scenario show ?thesis by blast
qed

theorem stress_urgent_hotfix_at_night_witness:
  "foldl (\<lambda>sum c. sum + filesCount c) 0
     [\<lparr>sha = ''a1b2c3d'', message = ''urgent hotfix: login redirect'',
        date = ''2024-03-02T02:14:00Z'', filesCount = 15, additions = 120, deletions = 40,
        hour = 2, stressScore = 0, repo = ''shop'', url = ''https://github.com/o/shop/commit/a1b2c3d''\<rparr>,
      \<lparr>sha = ''e4f5a6b'', message = ''Update README'',
        date = ''2024-03-01T10:00:00Z'', filesCount = 0, additions = 0, deletions = 0,
        hour = 10, stressScore = 0, repo = ''shop'', url = ''https://github.com/o/shop/commit/e4f5a6b''\<rparr>,
      \<lparr>sha = ''c7d8e9f'', message = ''Fix typo'',
        date = ''2024-02-28T23:30:00Z'', filesCount = 0, additions = 0, deletions = 0,
        hour = 23, stressScore = 0, repo = ''shop'', url = ''https://github.com/o/shop/commit/c7d8e9f''\<rparr>]
     / 3 = 5 \<and>
   map stressScore (calculateStressScore
     [\<lparr>sha = ''a1b2c3d'', message = ''urgent hotfix: login redirect'',
        date = ''2024-03-02T02:14:00Z'', filesCount = 15, additions = 120, deletions = 40,
        hour = 2, stressScore = 0, repo = ''shop'', url = ''https://github.com/o/shop/commit/a1b2c3d''\<rparr>,
      \<lparr>sha = ''e4f5a6b'', message = ''Update README'',
        date = ''2024-03-01T10:00:00Z'', filesCount = 0, additions = 0, deletions = 0,
        hour = 10, stressScore = 0, repo = ''shop'', url = ''https://github.com/o/shop/commit/e4f5a6b''\<rparr>,
      \<lparr>sha = ''c7d8e9f'', message = ''Fix typo'',
        date = ''2024-02-28T23:30:00Z'', filesCount = 0, additions = 0, deletions = 0,
        hour = 23, stressScore = 0, repo = ''shop'', url = ''https://github.com/o/shop/commit/c7d8e9f''\<rparr>])
     = [1, 0, 4 / 10]"
proof -
  let ?cs = "[\<lparr>sha = ''a1b2c3d'', message = ''urgent hotfix: login redirect'',
        date = ''2024-03-02T02:14:00Z'', filesCount = 15, additions = 120, deletions = 40,
        hour = 2, stressScore = 0, repo = ''shop'', url = ''https://github.com/o/shop/commit/a1b2c3d''\<rparr>,
      \<lparr>sha = ''e4f5a6b'', message = ''Update README'',
        date = ''2024-03-01T10:00:00Z'', filesCount = 0, additions = 0, deletions = 0,
        hour = 10, stressScore = 0, repo = ''shop'', url = ''https://github.com/o/shop/commit/e4f5a6b''\<rparr>,
      \<lparr>sha = ''c7d8e9f'', message = ''Fix typo'',
        date = ''2024-02-28T23:30:00Z'', filesCount = 0, additions = 0, deletions = 0,
        hour = 23, stressScore = 0, repo = ''shop'', url = ''https://github.com/o/shop/commit/c7d8e9f''\<rparr>]"
  have mean: "foldl (\<lambda>sum c. sum + filesCount c) 0 ?cs / 3 = 5" by simp
  have h0: "foldl (\<lambda>sum c. sum + filesCount c) 0 ?cs / of_nat (length ?cs) = 5 \<and>
      hour (?cs ! 0) = 2 \<and> filesCount (?cs ! 0) = 15 \<and>
      includesStr (message (?cs ! 0)) ''urgent hotfix''"
    by simp
  have l0: "0 < length ?cs" and l1: "1 < length ?cs" and l2: "2 < length ?cs" by simp_all
  from stress_urgent_hotfix_at_night [OF l0] h0
  have s0: "stressScore (calculateStressScore ?cs ! 0) = 1" by blast
  have s1: "stressScore (calculateStressScore ?cs ! 1) = 0"
    unfolding stress_urgent_hotfix_at_night [OF l1, THEN conjunct1]
    by (simp add: STRESS_KEYWORDS_def toLowerCase_def lowerChar_def char_of_def bit_Suc_0_iff)
  have s2: "stressScore (calculateStressScore ?cs ! 2) = 4 / 10"
    unfolding stress_urgent_hotfix_at_night [OF l2, THEN conjunct1]
    by (simp add: STRESS_KEYWORDS_def toLowerCase_def lowerChar_def char_of_def bit_Suc_0_iff)
  have len: "length (calculateStressScore ?cs) = 3"
    using stress_urgent_hotfix_at_night [OF l0, THEN conjunct2, THEN conjunct1] by simp
  have "map stressScore (calculateStressScore ?cs) = [1, 0, 4 / 10]"
  proof (rule nth_equalityI)
    show "length (map stressScore (calculateStressScore ?cs)) = length [1, 0, 4 / 10 :: rat]"
      using len by simp
    fix k
    assume "k < length (map stressScore (calculateStressScore ?cs))"
    with len consider "k = 0" | "k = 1" | "k = 2" by force
    then show "map stressScore (calculateStressScore ?cs) ! k = [1, 0, 4 / 10] ! k"
      using s0 s1 s2 len by cases simp_all
  qed
  with mean show ?thesis by blast
qed

section \<open>Facts about the activity score\<close>

lemma slice_last: "0 < w \<Longrightarrow> slice (- w) xs = drop (length xs - nat w) xs"
  by (auto simp: slice_def Let_def max_def nat_diff_distrib' intro: arg_cong [where f = "\<lambda>k. drop k xs"])

lemma log10_41_bounds: "63 / 40 \<le> log 10 (41 :: real) \<and> log 10 (41 :: real) < 65 / 40"
proof -
  have "log 10 ((41::real) ^ 40) = real 40 * log 10 41"
    by (rule log_nat_power) simp
  then have e41: "log 10 ((41::real) ^ 40) = 40 * log 10 41"
    by (simp only: of_nat_numeral)
  have "log 10 ((10::real) ^ 63) = real 63 * log 10 10"
    by (rule log_nat_power) simp
  then have e63: "log 10 ((10::real) ^ 63) = 63"
    by (simp only: of_nat_numeral log_eq_one mult_1_right)
  have "log 10 ((10::real) ^ 65) = real 65 * log 10 10"
    by (rule log_nat_power) simp
  then have e65: "log 10 ((10::real) ^ 65) = 65"
    by (simp only: of_nat_numeral log_eq_one mult_1_right)
  have "log 10 ((10::real) ^ 63) \<le> log 10 ((41::real) ^ 40)"
    by (subst log_le_cancel_iff) simp_all
  then have lo: "63 \<le> 40 * log 10 (41 :: real)"
    unfolding e41 e63 .
  have "log 10 ((41::real) ^ 40) < log 10 ((10::real) ^ 65)"
    by (subst log_less_cancel_iff) simp_all
  then have hi: "40 * log 10 (41 :: real) < 65"
    unfolding e41 e65 .
  from lo hi show ?thesis by simp
qed

lemma round_score_41: "round (min 100 (log 10 (41 :: real) * 20)) = 32"
proof -
  from log10_41_bounds have b: "63 / 2 \<le> log 10 (41 :: real) * 20" "log 10 (41 :: real) * 20 < 65 / 2"
    by simp_all
  then have "min 100 (log 10 (41 :: real) * 20) = log 10 41 * 20" by simp
  moreover have "round (log 10 (41 :: real) * 20) = 32"
    unfolding round_def using b by (intro floor_unique) simp_all
  ultimately show ?thesis by simp
qed

lemma round_min_100: "round (min 100 (x :: real)) \<le> 100"
proof -
  have "round (min 100 x) \<le> round (100 :: real)" by (rule round_mono) simp
  then show ?thesis by simp
qed


text \<open>
  Claim C8. With the default of 12 weeks, \<open>calculateActivityScore\<close> is 0 for the
  empty series and for a series whose last 12 entries have no week with commits.
  Otherwise it is \<open>round(min(100, log10(avgPerWeek + 1) * 20))\<close>, where \<open>avgPerWeek\<close> is
  the sum of the commits of the weeks with commits among the last 12 entries divided
  by the number of these weeks. With 400 commits in 10 such weeks the average is 40
  and the score is 32. The score never exceeds 100. The weeks kept are those with a
  positive total; for totals that are counts (none negative) these are exactly the
  non-zero weeks.
\<close>

theorem activityScore_last_twelve_weeks:
  "calculateActivityScore [] 12 = 0 \<and>
   (filter (\<lambda>a. 0 < total a) (drop (length acts - 12) acts) = [] \<longrightarrow>
      calculateActivityScore acts 12 = 0) \<and>
   (filter (\<lambda>a. 0 < total a) (drop (length acts - 12) acts) \<noteq> [] \<longrightarrow>
      calculateActivityScore acts 12 =
        round (min 100
          (log 10
             (real_of_rat
                (sum_list (map total (filter (\<lambda>a. 0 < total a) (drop (length acts - 12) acts)))
                  / of_nat (length (filter (\<lambda>a. 0 < total a) (drop (length acts - 12) acts))))
              + 1) * 20))) \<and>
   (length (filter (\<lambda>a. 0 < total a) (drop (length acts - 12) acts)) = 10 \<and>
    sum_list (map total (filter (\<lambda>a. 0 < total a) (drop (length acts - 12) acts))) = 400 \<longrightarrow>
      sum_list (map total (filter (\<lambda>a. 0 < total a) (drop (length acts - 12) acts)))
        / of_nat (length (filter (\<lambda>a. 0 < total a) (drop (length acts - 12) acts))) = 40 \<and>
      calculateActivityScore acts 12 = 32) \<and>
   calculateActivityScore acts 12 \<le> 100 \<and>
   ((\<forall>a \<in> set (drop (length acts - 12) acts). 0 \<le> total a) \<longrightarrow>
      filter (\<lambda>a. 0 < total a) (drop (length acts - 12) acts) =
        filter (\<lambda>a. total a \<noteq> 0) (drop (length acts - 12) acts))"
proof -
  let ?L = "drop (length acts - 12) acts"
  let ?P = "filter (\<lambda>a. 0 < total a) ?L"
  let ?avg = "sum_list (map total ?P) / of_nat (length ?P)"
  have sl: "slice (- 12) acts = ?L"
    using slice_last [of 12 acts] by simp
  have empty: "calculateActivityScore [] 12 = 0"
    by (simp add: calculateActivityScore_def)
  have none: "calculateActivityScore acts 12 = 0" if "?P = []"
    using that by (simp add: calculateActivityScore_def sl Let_def)
  have some: "calculateActivityScore acts 12 =
      round (min 100 (log 10 (real_of_rat ?avg + 1) * 20))" if "?P \<noteq> []"
  proof -
    from that have "acts \<noteq> []" by auto
    with that show ?thesis
      by (simp add: calculateActivityScore_def sl Let_def foldl_add_sum_list)
  qed
  have scenario: "?avg = 40 \<and> calculateActivityScore acts 12 = 32"
    if "length ?P = 10 \<and> sum_list (map total ?P) = 400"
  proof -
    from that have ne: "?P \<noteq> []" by auto
    from that have avg: "?avg = 40" by simp
    have "real_of_rat 40 + 1 = (41 :: real)" by simp
    with some [OF ne] avg round_score_41 show ?thesis by simp
  qed
  have bound: "calculateActivityScore acts 12 \<le> 100"
  proof (cases "?P = []")
    case True
    with none show ?thesis by simp
  next
    case False
    with some round_min_100 show ?thesis by simp
  qed
  have nonzero: "?P = filter (\<lambda>a. total a \<noteq> 0) ?L" if "\<forall>a \<in> set ?L. 0 \<le> total a"
    using that by (intro filter_cong) auto
  from empty none some scenario bound nonzero show ?thesis by blast
qed


theorem activityScore_last_twelve_weeks_witness:
  "length (filter (\<lambda>a. 0 < total a)
      (drop (length (weeksOf [7, 0, 40, 40, 40, 40, 40, 40, 40, 40, 40, 40, 0, 0]) - 12)
         (weeksOf [7, 0, 40, 40, 40, 40, 40, 40, 40, 40, 40, 40, 0, 0]))) = 10 \<and>
   sum_list (map total (filter (\<lambda>a. 0 < total a)
      (drop (length (weeksOf [7, 0, 40, 40, 40, 40, 40, 40, 40, 40, 40, 40, 0, 0]) - 12)
         (weeksOf [7, 0, 40, 40, 40, 40, 40, 40, 40, 40, 40, 40, 0, 0])))) = 400 \<and>
   list_all (\<lambda>a. 0 \<le> total a)
      (weeksOf [7, 0, 40, 40, 40, 40, 40, 40, 40, 40, 40, 40, 0, 0]) \<and>
   calculateActivityScore (weeksOf [7, 0, 40, 40, 40, 40, 40, 40, 40, 40, 40, 40, 0, 0]) 12 = 32 \<and>
   filter (\<lambda>a. 0 < total a)
      (drop (length (weeksOf [9, 0, 0, 0, 0, 0, 0, 0, 0, 0, 0, 0, 0]) - 12)
         (weeksOf [9, 0, 0, 0, 0, 0, 0, 0, 0, 0, 0, 0, 0])) = [] \<and>
   calculateActivityScore (weeksOf [9, 0, 0, 0, 0, 0, 0, 0, 0, 0, 0, 0, 0]) 12 = 0"
proof -
  let ?acts = "weeksOf [7, 0, 40, 40, 40, 40, 40, 40, 40, 40, 40, 40, 0, 0]"
  have h: "length (filter (\<lambda>a. 0 < total a) (drop (length ?acts - 12) ?acts)) = 10 \<and>
    sum_list (map total (filter (\<lambda>a. 0 < total a) (drop (length ?acts - 12) ?acts))) = 400"
    by (simp add: weeksOf_def)
  have nn: "list_all (\<lambda>a. 0 \<le> total a) ?acts"
    by (simp add: weeksOf_def)
  let ?idle = "weeksOf [9, 0, 0, 0, 0, 0, 0, 0, 0, 0, 0, 0, 0]"
  have z: "filter (\<lambda>a. 0 < total a) (drop (length ?idle - 12) ?idle) = []"
    by (simp add: weeksOf_def)
  from activityScore_last_twelve_weeks [of ?acts] h
  have a: "calculateActivityScore ?acts 12 = 32" by blast
  from activityScore_last_twelve_weeks [of ?idle] z
  have b: "calculateActivityScore ?idle 12 = 0" by blast
  from h nn a z b show ?thesis by blast
qed

section \<open>Facts about the commit timeline\<close>

lemma timelineEntry_fresh:
  "k \<notin> weekKey ` set es \<Longrightarrow>
   timelineEntry es k = \<lparr>week = k, totalCommits = 0, repoCount = 0, repos = []\<rparr>"
proof -
  assume "k \<notin> weekKey ` set es"
  then have "filter (\<lambda>e. weekKey e = k) es = []"
    by (auto simp: filter_empty_conv)
  then show ?thesis by (simp add: timelineEntry_def)
qed

lemma timelineEntry_snoc:
  "timelineEntry (es @ [(n, a)]) k =
     (if k = CommitActivity.week a * 1000
      then (timelineEntry es k)
             \<lparr>totalCommits := totalCommits (timelineEntry es k) + total a,
               repos := repos (timelineEntry es k) @ [\<lparr>repoName = n, commits = total a\<rparr>],
               repoCount := length (repos (timelineEntry es k)) + 1\<rparr>
      else timelineEntry es k)"
  by (auto simp: timelineEntry_def weekKey_def)

lemma addActivity_inv:
  assumes "weekMapInv es m"
  shows "weekMapInv (es @ [(n, a)]) (addActivity n a m)"
proof -
  let ?k = "CommitActivity.week a * 1000"
  let ?fresh = "\<lparr>week = ?k, totalCommits = 0, repoCount = 0, repos = []\<rparr>"
  let ?m1 = "if map_of m ?k = None then AList.update ?k ?fresh m else m"
  let ?v0 = "timelineEntry es ?k"
  let ?v3 = "?v0\<lparr>totalCommits := totalCommits ?v0 + total a,
               repos := repos ?v0 @ [\<lparr>repoName = n, commits = total a\<rparr>],
               repoCount := length (repos ?v0) + 1\<rparr>"
  from assms have d: "distinct (map fst m)"
    and mo: "\<And>k. map_of m k = (if k \<in> weekKey ` set es then Some (timelineEntry es k) else None)"
    by (simp_all add: weekMapInv_def)
  have d1: "distinct (map fst ?m1)" using d by (simp add: distinct_update)
  have look: "map_of ?m1 ?k = Some ?v0"
    using mo [of ?k] by (auto simp: update_conv' timelineEntry_fresh)
  have other: "map_of ?m1 k = map_of m k" if "k \<noteq> ?k" for k
    using that by (simp add: update_conv')
  have res: "addActivity n a m = AList.update ?k ?v3 ?m1"
    unfolding addActivity_def Let_def look by simp
  have keys: "weekKey ` set (es @ [(n, a)]) = insert ?k (weekKey ` set es)"
    by (simp add: weekKey_def)
  have "map_of (addActivity n a m) k =
      (if k \<in> weekKey ` set (es @ [(n, a)]) then Some (timelineEntry (es @ [(n, a)]) k) else None)"
    for k
  proof (cases "k = ?k")
    case True
    then show ?thesis
      unfolding res keys by (simp add: update_conv' timelineEntry_snoc)
  next
    case False
    then show ?thesis
      unfolding res keys using other [OF False] mo [of k]
      by (simp add: update_conv' timelineEntry_snoc)
  qed
  moreover have "distinct (map fst (addActivity n a m))"
    unfolding res using d1 by (rule distinct_update)
  ultimately show ?thesis unfolding weekMapInv_def by blast
qed

lemma foldl_addActivity_inv:
  "weekMapInv es m \<Longrightarrow>
   weekMapInv (es @ map (Pair n) acts) (foldl (\<lambda>m' activity. addActivity n activity m') m acts)"
proof (induction acts arbitrary: es m)
  case Nil
  then show ?case by simp
next
  case (Cons a acts)
  from Cons.IH [OF addActivity_inv [OF Cons.prems, of n a]] show ?case by simp
qed

lemma foldl_repos_inv:
  "weekMapInv es m \<Longrightarrow>
   weekMapInv (es @ weekEntries rs)
     (foldl (\<lambda>m r. foldl (\<lambda>m' activity. addActivity (RepoCommitData.repoName r) activity m')
                       m (activities r)) m rs)"
proof (induction rs arbitrary: es m)
  case Nil
  then show ?case by (simp add: weekEntries_def)
next
  case (Cons r rs)
  from Cons.IH [OF foldl_addActivity_inv [OF Cons.prems, of "RepoCommitData.repoName r" "activities r"]]
  show ?case by (simp add: weekEntries_def)
qed

lemma weekMapInv_empty: "weekMapInv [] []"
  by (simp add: weekMapInv_def)

lemma week_timelineEntry [simp]: "CommitTimelineData.week (timelineEntry es k) = k"
  by (simp add: timelineEntry_def)

lemma sorted_distinct_key_unique:
  fixes f :: "'a \<Rightarrow> 'k :: linorder"
  assumes "sorted (map f xs)" "distinct (map f xs)" "sorted (map f ys)" "distinct (map f ys)"
    and "set xs = set ys"
  shows "xs = ys"
proof -
  from assms(5) have "set (map f xs) = set (map f ys)" by simp
  with assms(1-4) have eq: "map f xs = map f ys"
    by (intro sorted_distinct_set_unique)
  from assms(2) have "inj_on f (set xs)" by (simp add: distinct_map)
  with assms(5) have "inj_on f (set xs \<union> set ys)" by simp
  with eq show ?thesis by (simp add: inj_on_map_eq_map)
qed

lemma weekMapInv_values:
  assumes "weekMapInv es m"
  shows "map snd m = map (timelineEntry es) (map fst m)"
    and "set (map fst m) = weekKey ` set es"
    and "distinct (map fst m)"
proof -
  from assms have d: "distinct (map fst m)"
    and mo: "\<And>k. map_of m k = (if k \<in> weekKey ` set es then Some (timelineEntry es k) else None)"
    by (simp_all add: weekMapInv_def)
  show "distinct (map fst m)" by (rule d)
  have "snd p = timelineEntry es (fst p)" if "p \<in> set m" for p
  proof -
    from that d have "map_of m (fst p) = Some (snd p)" by simp
    with mo [of "fst p"] show ?thesis by (auto split: if_splits)
  qed
  then show "map snd m = map (timelineEntry es) (map fst m)" by simp
  have "dom (map_of m) = weekKey ` set es"
    unfolding dom_def using mo by auto
  then show "set (map fst m) = weekKey ` set es" by (simp add: dom_map_of_conv_image_fst)
qed

text \<open>
  Claim C7. For every list of per-repository weekly series, \<open>aggregateCommitActivity\<close>
  returns the timeline the specification describes: the entries are grouped by week
  key (the week timestamp times 1000), each week's \<open>totalCommits\<close> is the sum of the
  totals of the entries of that week over all repositories, \<open>repos\<close> lists the
  repository and the commits of each of them in the order of the input, with
  \<open>repoCount\<close> their number, there is one entry for each week key of the input, and
  the timeline is in ascending order of the week.
\<close>

theorem aggregateCommitActivity_meets_spec:
  "aggregateCommitActivity rs = timelineSpec rs \<and>
   sorted (map CommitTimelineData.week (aggregateCommitActivity rs)) \<and>
   distinct (map CommitTimelineData.week (aggregateCommitActivity rs)) \<and>
   set (map CommitTimelineData.week (aggregateCommitActivity rs)) = weekKey ` set (weekEntries rs)"
proof -
  let ?es = "weekEntries rs"
  let ?m = "foldl (\<lambda>m r. foldl (\<lambda>m' activity. addActivity (RepoCommitData.repoName r) activity m')
                       m (activities r)) [] rs"
  let ?w = "CommitTimelineData.week"
  have inv: "weekMapInv ?es ?m"
    using foldl_repos_inv [OF weekMapInv_empty, of rs] by simp
  note v = weekMapInv_values [OF inv]
  let ?R = "sort_key ?w (map snd ?m)"
  let ?S = "map (timelineEntry ?es) (sort (remdups (map weekKey ?es)))"
  have agg: "aggregateCommitActivity rs = ?R"
    by (simp add: aggregateCommitActivity_def)
  have wS: "map ?w ?S = sort (remdups (map weekKey ?es))"
    by (simp add: comp_def)
  have sS: "sorted (map ?w ?S)" and dS: "distinct (map ?w ?S)"
    unfolding wS by simp_all
  have wm: "map ?w (map snd ?m) = map fst ?m"
    unfolding v(1) by (simp add: comp_def)
  have sR: "sorted (map ?w ?R)" by (rule sorted_sort_key)
  have "distinct (map ?w (map snd ?m))" unfolding wm by (rule v(3))
  then have dm: "distinct (map snd ?m)" and im: "inj_on ?w (set (map snd ?m))"
    by (simp_all only: distinct_map)
  then have dR: "distinct (map ?w ?R)"
    by (simp add: distinct_map)
  have "set ?R = timelineEntry ?es ` set (map fst ?m)"
    unfolding set_sort v(1) by (simp add: image_image)
  also have "\<dots> = set ?S" unfolding v(2) by simp
  finally have st: "set ?R = set ?S" .
  have eq: "?R = ?S"
    by (rule sorted_distinct_key_unique [OF sR dR sS dS st])
  have keys: "set (map ?w ?R) = weekKey ` set ?es"
    unfolding eq wS by simp
  show ?thesis
    unfolding agg timelineSpec_def using eq sR dR keys by simp
qed


theorem aggregateCommitActivity_meets_spec_witness:
  "aggregateCommitActivity
     [\<lparr>RepoCommitData.repoName = ''api'',
        activities = [\<lparr>CommitActivity.week = 1704672000, total = 3, days = [3, 0, 0, 0, 0, 0, 0]\<rparr>,
                      \<lparr>CommitActivity.week = 1704067200, total = 5, days = [0, 5, 0, 0, 0, 0, 0]\<rparr>]\<rparr>,
      \<lparr>RepoCommitData.repoName = ''web'',
        activities = [\<lparr>CommitActivity.week = 1704672000, total = 4, days = [0, 0, 4, 0, 0, 0, 0]\<rparr>]\<rparr>] =
     [\<lparr>week = 1704067200000, totalCommits = 5, repoCount = 1,
        repos = [\<lparr>repoName = ''api'', commits = 5\<rparr>]\<rparr>,
      \<lparr>week = 1704672000000, totalCommits = 7, repoCount = 2,
        repos = [\<lparr>repoName = ''api'', commits = 3\<rparr>, \<lparr>repoName = ''web'', commits = 4\<rparr>]\<rparr>]"
  using aggregateCommitActivity_meets_spec
    [of "[\<lparr>RepoCommitData.repoName = ''api'',
        activities = [\<lparr>CommitActivity.week = 1704672000, total = 3, days = [3, 0, 0, 0, 0, 0, 0]\<rparr>,
                      \<lparr>CommitActivity.week = 1704067200, total = 5, days = [0, 5, 0, 0, 0, 0, 0]\<rparr>]\<rparr>,
      \<lparr>RepoCommitData.repoName = ''web'',
        activities = [\<lparr>CommitActivity.week = 1704672000, total = 4, days = [0, 0, 4, 0, 0, 0, 0]\<rparr>]\<rparr>]"]
  by (simp add: timelineSpec_def weekEntries_def weekKey_def timelineEntry_def)

end
